theory Spec2Isabelle
  imports Complex_Main "HOL-Library.Multiset"
begin

section \<open>Python values, exceptions and log records\<close>

text \<open>
  The module \<^verbatim>\<open>spei/utils.py\<close> is a handful of stateless functions over pandas objects.
  Exceptions are values of the type \<open>error\<close>, carried in the left summand of a result;
  calls to \<^verbatim>\<open>logging\<close> are recorded as a list of log records returned beside the result.
\<close>

datatype error =
    TypeError string
  | AttributeError string
  | ValueError string
  | KeyError string
  | IndexError string
  | InvalidIndexError string
  | OutOfBoundsDatetime string

datatype level = INFO | WARNING

type_synonym log_record = "level \<times> string"

text \<open>
  A timestamp as pandas holds it: a calendar date, a time of day and the nanoseconds
  within the second. Missing timestamps (NaT) and time zones are outside the model.
\<close>

record ts =
  year :: int
  month :: nat
  day :: nat
  hour :: nat
  minute :: nat
  second :: nat
  nanosecond :: nat

text \<open>Labels of a generic (non-datetime) index and of the columns of a table.\<close>

datatype label = LInt int | LStr string | LBool bool

text \<open>
  The continuous distribution objects of \<^verbatim>\<open>scipy.stats\<close>: the eight families the module
  imports, and any other family, identified by its name.
\<close>

datatype rv_continuous =
    Norm | Gamma | Genextreme | Pearson3 | Fisk | Lognorm | Logistic | Genlogistic
  | Rv string

text \<open>\<^verbatim>\<open>getattr(dist, "name")\<close>\<close>

fun name :: "rv_continuous \<Rightarrow> string" where
  "name Norm = ''norm''"
| "name Gamma = ''gamma''"
| "name Genextreme = ''genextreme''"
| "name Pearson3 = ''pearson3''"
| "name Fisk = ''fisk''"
| "name Lognorm = ''lognorm''"
| "name Logistic = ''logistic''"
| "name Genlogistic = ''genlogistic''"
| "name (Rv n) = n"

text \<open>
  A cell of a series or table. \<open>NaN\<close> is the missing value; \<open>CTuple\<close> is a Python tuple
  of floats kept as one object; \<open>CObj\<close> is a reference to a distribution object.
\<close>

datatype cell =
  NaN | CInt int | CNum real | CStr string | CBool bool | CTuple "real list" | CObj rv_continuous

datatype pd_index = DatetimeIndex "ts list" | Index "label list"

record series =
  s_index :: pd_index
  s_vals :: "cell list"

text \<open>
  A table: the row index and the columns in order, each a label with its cells. The
  type of the row index is a parameter: \<open>pd_index\<close> for a table indexed by time or by
  plain labels, \<open>cell list\<close> once a column of cells has been made the index.
\<close>

record 'i dataframe =
  df_index :: 'i
  df_columns :: "(label \<times> cell list) list"

text \<open>
  The Python objects that \<^verbatim>\<open>validate_series\<close> is modelled on: the two pandas containers,
  two builtin containers, some builtin scalars, and the scalar that pandas hands out for
  a single cell.
\<close>

datatype pyobj =
    Series series
  | DataFrame "pd_index dataframe"
  | PyList "pyobj list"
  | PyTuple "pyobj list"
  | PyInt int
  | PyStr string
  | PyNone
  | Scalar cell

definition index_len :: "pd_index \<Rightarrow> nat" where
  "index_len ix = (case ix of DatetimeIndex stamps \<Rightarrow> length stamps | Index ls \<Rightarrow> length ls)"

definition py_quote :: "string \<Rightarrow> string" where
  "py_quote s = CHR 0x27 # s @ [CHR 0x27]"

definition class_repr :: "string \<Rightarrow> string" where
  "class_repr n = ''<class '' @ py_quote n @ ''>''"

text \<open>The name of the type of a cell taken out of a table as a scalar.\<close>

fun scalar_type_name :: "cell \<Rightarrow> string" where
  "scalar_type_name NaN = ''numpy.float64''"
| "scalar_type_name (CInt _) = ''numpy.int64''"
| "scalar_type_name (CNum _) = ''numpy.float64''"
| "scalar_type_name (CStr _) = ''str''"
| "scalar_type_name (CBool _) = ''numpy.bool_''"
| "scalar_type_name (CTuple _) = ''tuple''"
| "scalar_type_name (CObj d) = ''scipy.stats._continuous_distns.'' @ name d @ ''_gen''"

fun type_name :: "pyobj \<Rightarrow> string" where
  "type_name (Series _) = ''pandas.core.series.Series''"
| "type_name (DataFrame _) = ''pandas.core.frame.DataFrame''"
| "type_name (PyList _) = ''list''"
| "type_name (PyTuple _) = ''tuple''"
| "type_name (PyInt _) = ''int''"
| "type_name (PyStr _) = ''str''"
| "type_name PyNone = ''NoneType''"
| "type_name (Scalar c) = scalar_type_name c"

text \<open>
  Which objects have a \<^verbatim>\<open>copy\<close> method: the pandas containers, lists and numpy scalars
  have one; \<^verbatim>\<open>int\<close>, \<^verbatim>\<open>str\<close>, \<^verbatim>\<open>tuple\<close> and \<^verbatim>\<open>None\<close> have none.
\<close>

fun scalar_has_copy :: "cell \<Rightarrow> bool" where
  "scalar_has_copy NaN = True"
| "scalar_has_copy (CInt _) = True"
| "scalar_has_copy (CNum _) = True"
| "scalar_has_copy (CBool _) = True"
| "scalar_has_copy (CStr _) = False"
| "scalar_has_copy (CTuple _) = False"
| "scalar_has_copy (CObj _) = False"

fun has_copy :: "pyobj \<Rightarrow> bool" where
  "has_copy (Series _) = True"
| "has_copy (DataFrame _) = True"
| "has_copy (PyList _) = True"
| "has_copy (PyTuple _) = False"
| "has_copy (PyInt _) = False"
| "has_copy (PyStr _) = False"
| "has_copy PyNone = False"
| "has_copy (Scalar c) = scalar_has_copy c"

text \<open>
  \<^verbatim>\<open>x.copy()\<close>: attribute lookup fails with AttributeError on an object without the
  method; otherwise the copy is an object equal to the original.
\<close>

definition py_copy :: "pyobj \<Rightarrow> error + pyobj" where
  "py_copy x =
     (if has_copy x then Inr x
      else Inl (AttributeError
        (py_quote (type_name x) @ '' object has no attribute '' @ py_quote ''copy'')))"

text \<open>
  \<^verbatim>\<open>DataFrame.squeeze()\<close>: every axis of length one is dropped. A table of one row and one
  column becomes the scalar of its only cell, a table with one column (or one row)
  becomes a series, any other table is unchanged.
\<close>

definition squeeze :: "pd_index dataframe \<Rightarrow> pyobj" where
  "squeeze df =
     (let nr = index_len (df_index df); cols = df_columns df in
      if length cols = 1 \<and> nr = 1 then
        (case snd (hd cols) of [] \<Rightarrow> DataFrame df | c # _ \<Rightarrow> Scalar c)
      else if length cols = 1 then
        Series \<lparr>s_index = df_index df, s_vals = snd (hd cols)\<rparr>
      else if nr = 1 then
        Series \<lparr>s_index = Index (map fst cols), s_vals = concat (map (take 1 \<circ> snd) cols)\<rparr>
      else DataFrame df)"

section \<open>Series/Index validator\<close>

definition squeeze_warning :: string where
  "squeeze_warning =
     ''Please convert series of type pandas.DataFrame to a'' @
     ''pandas.Series using DataFrame.squeeze(). Now done automatically.''"

text \<open>
  \<^verbatim>\<open>validate_series\<close>: the argument is copied first; only then is its type inspected.
\<close>

definition validate_series :: "pyobj \<Rightarrow> log_record list \<times> (error + pyobj)" where
  "validate_series arg =
     (case py_copy arg of
        Inl e \<Rightarrow> ([], Inl e)
      | Inr series \<Rightarrow>
          (case series of
             Series _ \<Rightarrow> ([], Inr series)
           | DataFrame df \<Rightarrow>
               if length (df_columns df) = 1 then
                 ([(WARNING, squeeze_warning)], Inr (squeeze df))
               else
                 ([], Inl (TypeError
                   ''Please provide a pandas.Series instead of a pandas.DataFrame''))
           | _ \<Rightarrow>
               ([], Inl (TypeError
                  (''Please provide a Pandas Series instead of '' @
                   class_repr (type_name series))))))"


text \<open>A one-column table of three rows, and one of a single row.\<close>

definition table_3x1 :: "pd_index dataframe" where
  "table_3x1 =
     \<lparr>df_index = Index [LInt 1, LInt 2, LInt 3],
      df_columns = [(LStr ''s'', [CInt 1, CInt 2, CInt 3])]\<rparr>"

definition table_1x1 :: "pd_index dataframe" where
  "table_1x1 = \<lparr>df_index = Index [LInt 0], df_columns = [(LStr ''s'', [CInt 1])]\<rparr>"


section \<open>Decimal numerals\<close>

text \<open>The decimal digits of a natural number, as \<^verbatim>\<open>str\<close> and f-strings print an integer.\<close>

definition digits :: string where
  "digits = ''0123456789''"

definition digit_char :: "nat \<Rightarrow> char" where
  "digit_char n = digits ! (n mod 10)"

fun str_nat :: "nat \<Rightarrow> string" where
  "str_nat n = (if n < 10 then [digit_char n] else str_nat (n div 10) @ [digit_char (n mod 10)])"

declare str_nat.simps [simp del]

definition py_str_int :: "int \<Rightarrow> string" where
  "py_str_int i = (if i < 0 then CHR ''-'' # str_nat (nat (- i)) else str_nat (nat i))"

text \<open>\<^verbatim>\<open>str\<close> and \<^verbatim>\<open>repr\<close> of a label.\<close>

fun py_str :: "label \<Rightarrow> string" where
  "py_str (LInt i) = py_str_int i"
| "py_str (LStr s) = s"
| "py_str (LBool b) = (if b then ''True'' else ''False'')"

fun py_repr :: "label \<Rightarrow> string" where
  "py_repr (LStr s) = py_quote s"
| "py_repr l = py_str l"

section \<open>Distribution fit-tester and multi-distribution evaluator\<close>

text \<open>
  The statistics come from outside the repository: \<^verbatim>\<open>dist.fit(sample, scale=...)\<close> and
  \<^verbatim>\<open>kstest(sample, name, args, N=...)\<close> of scipy, and \<^verbatim>\<open>std\<close> of numpy. They are a parameter
  of the model; a call of \<open>fit\<close> or \<open>kstest\<close> may raise. The sample is passed through
  untouched, so its type is a parameter too.
\<close>

text \<open>
  The statistic and the p-value of the test are Python floats: a number or \<^verbatim>\<open>nan\<close>
  (infinities are outside the model). A comparison with \<^verbatim>\<open>nan\<close> is false.
\<close>

datatype pyfloat = FNan | FNum real

fun float_lt :: "pyfloat \<Rightarrow> real \<Rightarrow> bool" where
  "float_lt FNan a = False"
| "float_lt (FNum v) a = (v < a)"

fun in_unit_interval :: "pyfloat \<Rightarrow> bool" where
  "in_unit_interval FNan = False"
| "in_unit_interval (FNum v) = (0 \<le> v \<and> v \<le> 1)"

fun cell_of_float :: "pyfloat \<Rightarrow> cell" where
  "cell_of_float FNan = NaN"
| "cell_of_float (FNum v) = CNum v"

record 's stats =
  fit :: "rv_continuous \<Rightarrow> 's \<Rightarrow> real \<Rightarrow> error + real list"
  std :: "'s \<Rightarrow> real"
  kstest :: "'s \<Rightarrow> string \<Rightarrow> real list \<Rightarrow> int \<Rightarrow> error + pyfloat \<times> pyfloat"

definition dist_test ::
  "'s stats \<Rightarrow> 's \<Rightarrow> rv_continuous \<Rightarrow> int \<Rightarrow> real \<Rightarrow>
     error + string \<times> pyfloat \<times> bool \<times> real list" where
  "dist_test lib series D N alpha =
     (case fit lib D series (std lib series) of
        Inl e \<Rightarrow> Inl e
      | Inr fitted \<Rightarrow>
          (let dist_name = name D in
           case kstest lib series dist_name fitted N of
             Inl e \<Rightarrow> Inl e
           | Inr res \<Rightarrow>
               (let ks = snd res; rej_h0 = float_lt ks alpha
                in Inr (dist_name, ks, rej_h0, fitted))))"

text \<open>The call with the default arguments \<^verbatim>\<open>N=100, alpha=0.05\<close>.\<close>

definition dist_test_default ::
  "'s stats \<Rightarrow> 's \<Rightarrow> rv_continuous \<Rightarrow> error + string \<times> pyfloat \<times> bool \<times> real list" where
  "dist_test_default lib series D = dist_test lib series D 100 0.05"

text \<open>A list comprehension over calls that may raise: the first exception ends it.\<close>

fun for_each :: "('a \<Rightarrow> error + 'b) \<Rightarrow> 'a list \<Rightarrow> error + 'b list" where
  "for_each f [] = Inr []"
| "for_each f (x # xs) =
     (case f x of
        Inl e \<Rightarrow> Inl e
      | Inr y \<Rightarrow> (case for_each f xs of Inl e \<Rightarrow> Inl e | Inr ys \<Rightarrow> Inr (y # ys)))"

text \<open>
  The tuple \<^verbatim>\<open>(dist_name, ks, rej_h0, fitted)\<close> as the four objects pandas sees: the
  parameter tuple is one object.
\<close>

definition row_cells :: "string \<times> pyfloat \<times> bool \<times> real list \<Rightarrow> cell list" where
  "row_cells r =
     (case r of (n, ks, rej, fitted) \<Rightarrow> [CStr n, cell_of_float ks, CBool rej, CTuple fitted])"

definition cell_at :: "cell list \<Rightarrow> nat \<Rightarrow> cell" where
  "cell_at r j = (if j < length r then r ! j else NaN)"

text \<open>
  \<^verbatim>\<open>DataFrame(rows)\<close> on a list of tuples: one column per position up to the longest
  tuple, numbered from 0, shorter tuples padded with missing cells; the rows are numbered
  from 0.
\<close>

definition DataFrame_of_rows :: "cell list list \<Rightarrow> pd_index dataframe" where
  "DataFrame_of_rows rows =
     \<lparr>df_index = Index (map (LInt \<circ> int) [0..<length rows]),
      df_columns =
        map (\<lambda>j. (LInt (int j), map (\<lambda>r. cell_at r j) rows))
          [0..<foldr max (map length rows) 0]\<rparr>"

text \<open>\<^verbatim>\<open>dict(pairs)\<close>: a later pair with the same key replaces an earlier one.\<close>

definition py_dict :: "('k \<times> 'v) list \<Rightarrow> 'k \<Rightarrow> 'v option" where
  "py_dict pairs = map_of (rev pairs)"

text \<open>\<^verbatim>\<open>df.rename(columns=mapper)\<close>\<close>

definition rename_columns :: "(label \<Rightarrow> label option) \<Rightarrow> 'i dataframe \<Rightarrow> 'i dataframe" where
  "rename_columns mapper df =
     df\<lparr>df_columns :=
          map (\<lambda>c. (case mapper (fst c) of None \<Rightarrow> fst c | Some l \<Rightarrow> l, snd c))
            (df_columns df)\<rparr>"

text \<open>\<^verbatim>\<open>df.set_index(key)\<close>: the cells of the column become the row index.\<close>

definition set_index :: "label \<Rightarrow> 'i dataframe \<Rightarrow> error + cell list dataframe" where
  "set_index key df =
     (case map_of (df_columns df) key of
        None \<Rightarrow> Inl (KeyError (''None of ['' @ py_repr key @ ''] are in the columns''))
      | Some cs \<Rightarrow>
          Inr \<lparr>df_index = cs,
               df_columns = filter (\<lambda>c. fst c \<noteq> key) (df_columns df)\<rparr>)"

text \<open>\<^verbatim>\<open>df[key] = list\<close>: replaces the column of that label or appends a new one.\<close>

definition set_column ::
  "label \<Rightarrow> cell list \<Rightarrow> cell list dataframe \<Rightarrow> error + cell list dataframe" where
  "set_column key cs df =
     (if length cs \<noteq> length (df_index df) then
        Inl (ValueError
          (''Length of values ('' @ str_nat (length cs) @
           '') does not match length of index ('' @ str_nat (length (df_index df)) @ '')''))
      else if key \<in> set (map fst (df_columns df)) then
        Inr (df\<lparr>df_columns :=
                  map (\<lambda>c. if fst c = key then (key, cs) else c) (df_columns df)\<rparr>)
      else Inr (df\<lparr>df_columns := df_columns df @ [(key, cs)]\<rparr>))"

definition default_distributions :: "rv_continuous list" where
  "default_distributions =
     [Norm, Gamma, Genextreme, Pearson3, Fisk, Lognorm, Logistic, Genlogistic]"

text \<open>
  \<^verbatim>\<open>dists_test\<close>. The number of parameter columns is \<^verbatim>\<open>len(df.columns) - len(cols)\<close>; the
  range of a negative number is empty, as the truncating subtraction on \<open>nat\<close> is.
\<close>

definition dists_test ::
  "'s stats \<Rightarrow> 's \<Rightarrow> rv_continuous list option \<Rightarrow> int \<Rightarrow> real \<Rightarrow>
     error + cell list dataframe" where
  "dists_test lib series distributions_arg N alpha =
     (let distributions =
            (case distributions_arg of None \<Rightarrow> default_distributions | Some ds \<Rightarrow> ds)
      in case for_each (\<lambda>D. dist_test lib series D N alpha) distributions of
           Inl e \<Rightarrow> Inl e
         | Inr results \<Rightarrow>
             (let df = DataFrame_of_rows (map row_cells results);
                  cols = [''Distribution'', ''KS p-value'', ''Reject H0''];
                  cols = cols @ map (\<lambda>i. ''Param '' @ str_nat (i + 1))
                                  [0..<length (df_columns df) - length cols];
                  df = rename_columns (py_dict (zip (map fst (df_columns df)) (map LStr cols))) df
              in case set_index (LStr (hd cols)) df of
                   Inl e \<Rightarrow> Inl e
                 | Inr df \<Rightarrow> set_column (LStr ''Dist'') (map CObj distributions) df))"

text \<open>
  A stand-in for the statistics library, for evaluating the functions on concrete
  input: two parameters for the normal family, three for every other one, and a fixed
  p-value per family name.
\<close>

definition toy_stats :: "real list stats" where
  "toy_stats =
     \<lparr>fit = (\<lambda>D s sc. if D = Norm then Inr [0, sc] else Inr [1, 0, sc]),
      std = (\<lambda>s. 2),
      kstest =
        (\<lambda>s n args N. Inr (FNum (1 / 10), FNum (if n = ''gamma'' then 1 / 100 else 1 / 2)))\<rparr>"

text \<open>
  What the library does on the constant sample \<^verbatim>\<open>[1, 1, 1]\<close> with the normal family: the
  standard deviation is 0, the fit is location 1 and scale 0, and the test on a
  distribution of scale 0 has statistic and p-value \<^verbatim>\<open>nan\<close>.
\<close>

definition constant_sample_stats :: "real list stats" where
  "constant_sample_stats =
     \<lparr>fit = (\<lambda>D s sc. Inr [1, sc]),
      std = (\<lambda>s. 0),
      kstest = (\<lambda>s n args N. Inr (FNan, FNan))\<rparr>"

section \<open>Calendar, formatting and parsing of timestamps\<close>

text \<open>\<^verbatim>\<open>calendar.isleap\<close>\<close>

definition isleap :: "int \<Rightarrow> bool" where
  "isleap y = (y mod 4 = 0 \<and> (y mod 100 \<noteq> 0 \<or> y mod 400 = 0))"

definition days_in_month :: "int \<Rightarrow> nat \<Rightarrow> nat" where
  "days_in_month y m =
     (if m = 2 then (if isleap y then 29 else 28)
      else if m = 4 \<or> m = 6 \<or> m = 9 \<or> m = 11 then 30 else 31)"

text \<open>A timestamp names a real date and time of day.\<close>

definition valid_ts :: "ts \<Rightarrow> bool" where
  "valid_ts t =
     (1 \<le> month t \<and> month t \<le> 12 \<and> 1 \<le> day t \<and> day t \<le> days_in_month (year t) (month t) \<and>
      hour t < 24 \<and> minute t < 60 \<and> second t < 60 \<and> nanosecond t < 1000000000)"

text \<open>
  A key that orders timestamps as time does (on valid timestamps): the fields are
  weighed in mixed radix, most significant first.
\<close>

definition ts_key :: "ts \<Rightarrow> int" where
  "ts_key t =
     (((((year t * 12 + (int (month t) - 1)) * 31 + (int (day t) - 1)) * 24 + int (hour t)) * 60
        + int (minute t)) * 60 + int (second t)) * 1000000000 + int (nanosecond t)"

text \<open>
  The range of pandas timestamps at nanosecond resolution, \<^verbatim>\<open>Timestamp.min\<close> to
  \<^verbatim>\<open>Timestamp.max\<close>.
\<close>

definition ts_min :: ts where
  "ts_min = \<lparr>year = 1677, month = 9, day = 21, hour = 0, minute = 12, second = 43,
             nanosecond = 145224193\<rparr>"

definition ts_max :: ts where
  "ts_max = \<lparr>year = 2262, month = 4, day = 11, hour = 23, minute = 47, second = 16,
             nanosecond = 854775807\<rparr>"

definition in_bounds :: "ts \<Rightarrow> bool" where
  "in_bounds t = (ts_key ts_min \<le> ts_key t \<and> ts_key t \<le> ts_key ts_max)"

text \<open>
  The date of a day number counted from 1970-01-01 in the proleptic Gregorian
  calendar, and the timestamp of a number of nanoseconds since that day's midnight:
  how pandas reads an integer label as a time.
\<close>

definition civil_from_days :: "int \<Rightarrow> int \<times> nat \<times> nat" where
  "civil_from_days z0 =
     (let z = z0 + 719468;
          era = z div 146097;
          doe = z - era * 146097;
          yoe = (doe - doe div 1460 + doe div 36524 - doe div 146096) div 365;
          doy = doe - (365 * yoe + yoe div 4 - yoe div 100);
          mp = (5 * doy + 2) div 153;
          d = doy - (153 * mp + 2) div 5 + 1;
          m = (if mp < 10 then mp + 3 else mp - 9);
          y = yoe + era * 400 + (if m \<le> 2 then 1 else 0)
      in (y, nat m, nat d))"

definition from_epoch_ns :: "int \<Rightarrow> ts" where
  "from_epoch_ns n =
     (let days = n div 86400000000000;
          r = n mod 86400000000000;
          secs = r div 1000000000;
          ymd = civil_from_days days
      in \<lparr>year = fst ymd, month = fst (snd ymd), day = snd (snd ymd),
          hour = nat (secs div 3600), minute = nat (secs mod 3600 div 60),
          second = nat (secs mod 60), nanosecond = nat (r mod 1000000000)\<rparr>)"

text \<open>
  \<^verbatim>\<open>strftime("%m-%d %H:%M:%S")\<close>: every field in two digits; the year and the
  nanoseconds are not printed.
\<close>

definition two_digits :: "nat \<Rightarrow> string" where
  "two_digits n = [digit_char (n div 10), digit_char n]"

definition strftime :: "ts \<Rightarrow> string" where
  "strftime t =
     two_digits (month t) @ ''-'' @ two_digits (day t) @ '' '' @
     two_digits (hour t) @ '':'' @ two_digits (minute t) @ '':'' @ two_digits (second t)"

text \<open>
  Reading a string by the format \<^verbatim>\<open>"%Y-%m-%d %H:%M:%S"\<close>: four digits of year and two
  digits for every other field, as the strings this module builds have them, with the
  separators of the format in between.
\<close>

definition digit_val :: "char \<Rightarrow> nat option" where
  "digit_val c = map_of (zip digits [0..<10]) c"

fun digits_val :: "nat \<Rightarrow> string \<Rightarrow> nat option" where
  "digits_val acc [] = Some acc"
| "digits_val acc (c # cs) =
     (case digit_val c of None \<Rightarrow> None | Some d \<Rightarrow> digits_val (10 * acc + d) cs)"

definition field_val :: "string \<Rightarrow> nat \<Rightarrow> nat \<Rightarrow> nat option" where
  "field_val s pos len = digits_val 0 (take len (drop pos s))"

definition strptime :: "string \<Rightarrow> ts option" where
  "strptime s =
     (if length s = 19 \<and> s ! 4 = CHR ''-'' \<and> s ! 7 = CHR ''-'' \<and> s ! 10 = CHR '' '' \<and>
         s ! 13 = CHR '':'' \<and> s ! 16 = CHR '':'' then
        (case (field_val s 0 4, field_val s 5 2, field_val s 8 2,
               field_val s 11 2, field_val s 14 2, field_val s 17 2) of
           (Some y, Some m, Some d, Some H, Some M, Some S) \<Rightarrow>
             Some \<lparr>year = int y, month = m, day = d, hour = H, minute = M, second = S,
                   nanosecond = 0\<rparr>
         | _ \<Rightarrow> None)
      else None)"

text \<open>
  \<^verbatim>\<open>to_datetime(s, format="%Y-%m-%d %H:%M:%S")\<close> on one string: the string must match
  the format, name a real date and lie in the range of timestamps.
\<close>

definition to_datetime_format :: "string \<Rightarrow> error + ts" where
  "to_datetime_format s =
     (case strptime s of
        None \<Rightarrow>
          Inl (ValueError (''time data '' @ py_quote s @ '' does not match format '' @
                           py_quote ''%Y-%m-%d %H:%M:%S''))
      | Some t \<Rightarrow>
          if \<not> valid_ts t then Inl (ValueError ''day is out of range for month'')
          else if \<not> in_bounds t then
            Inl (OutOfBoundsDatetime (''Out of bounds nanosecond timestamp: '' @ s))
          else Inr t)"

section \<open>Strings and lists of Python\<close>

text \<open>\<^verbatim>\<open>s.split(c)\<close> for a separator of one character.\<close>

fun split_on :: "char \<Rightarrow> string \<Rightarrow> string list" where
  "split_on c [] = [[]]"
| "split_on c (x # xs) =
     (if x = c then [] # split_on c xs
      else (case split_on c xs of [] \<Rightarrow> [[x]] | p # ps \<Rightarrow> (x # p) # ps))"

text \<open>\<^verbatim>\<open>s.split(c, 1)\<close>: split at the first separator only.\<close>

definition split_once :: "char \<Rightarrow> string \<Rightarrow> string list" where
  "split_once c s =
     (if c \<in> set s then [takeWhile (\<lambda>x. x \<noteq> c) s, tl (dropWhile (\<lambda>x. x \<noteq> c) s)] else [s])"

text \<open>\<^verbatim>\<open>xs[i]\<close> for \<open>i \<ge> 0\<close>\<close>

definition item :: "'a list \<Rightarrow> nat \<Rightarrow> error + 'a" where
  "item xs i = (if i < length xs then Inr (xs ! i) else Inl (IndexError ''list index out of range''))"

text \<open>
  \<^verbatim>\<open>int(s)\<close> on a string of decimal digits with an optional sign. (Python also accepts
  surrounding white space and underscores between digits, which the strings built from
  integer labels never have.)
\<close>

definition py_int :: "string \<Rightarrow> error + int" where
  "py_int s =
     (let body = (if s \<noteq> [] \<and> (hd s = CHR ''-'' \<or> hd s = CHR ''+'') then tl s else s) in
      case (if body = [] then None else digits_val 0 body) of
        None \<Rightarrow> Inl (ValueError (''invalid literal for int() with base 10: '' @ py_quote s))
      | Some n \<Rightarrow> Inr (if s \<noteq> [] \<and> hd s = CHR ''-'' then - int n else int n))"

text \<open>Indexing an array by a boolean mask of the same length.\<close>

definition select :: "'a list \<Rightarrow> bool list \<Rightarrow> 'a list" where
  "select xs bs = map fst (filter snd (zip xs bs))"

section \<open>Yearly regrouper and series flattener\<close>

text \<open>\<^verbatim>\<open>Series.dropna()\<close>: the entries whose value is missing are dropped.\<close>

definition dropna :: "series \<Rightarrow> series" where
  "dropna s =
     (let keep = map (\<lambda>v. v \<noteq> NaN) (s_vals s) in
      \<lparr>s_index =
         (case s_index s of
            DatetimeIndex stamps \<Rightarrow> DatetimeIndex (select stamps keep)
          | Index ls \<Rightarrow> Index (select ls keep)),
       s_vals = select (s_vals s) keep\<rparr>)"

text \<open>
  The bins of \<^verbatim>\<open>Grouper(freq="Y")\<close>, a year-end frequency with bins closed and labelled on
  the right. The edges run over the ends of December from the one before the earliest
  entry (its day minus one year end) to the one reached from the day of the latest entry
  by adding one year end; an edge outside the range of timestamps is an error. Every
  edge is moved to the last instant of its day; when the edge before the last is then
  already after the latest entry, the last edge is dropped. The labels are the years of
  the right edges.
\<close>

definition year_end :: "int \<Rightarrow> ts" where
  "year_end y = \<lparr>year = y, month = 12, day = 31, hour = 0, minute = 0, second = 0,
     nanosecond = 0\<rparr>"

definition end_of_day :: "ts \<Rightarrow> ts" where
  "end_of_day t = t\<lparr>hour := 23, minute := 59, second := 59, nanosecond := 999999999\<rparr>"

definition year_bins :: "ts \<Rightarrow> ts \<Rightarrow> error + int list" where
  "year_bins earliest latest =
     (let first = year_end (year earliest - 1);
          last = year_end (if month latest = 12 \<and> day latest = 31 then year latest + 1
                           else year latest)
      in if in_bounds first \<and> in_bounds last then
           (let edges = [year first..year last];
                kept = (if ts_key latest < ts_key (end_of_day (year_end (year last - 1)))
                        then butlast edges else edges)
            in Inr (tl kept))
         else
           Inl (OutOfBoundsDatetime
             (''Out of bounds nanosecond timestamp: '' @
              py_str_int (year (if in_bounds first then last else first)) @
              ''-12-31 00:00:00'')))"

text \<open>
  \<^verbatim>\<open>series.groupby(Grouper(freq="Y"))\<close>: the entries are put in order of time and cut
  into one group per bin, that is per calendar year, a year without entries giving an
  empty group; an empty series has no bins. Only a series indexed by time can be
  grouped so.
\<close>

definition groupby_year :: "series \<Rightarrow> error + (int \<times> (ts \<times> cell) list) list" where
  "groupby_year s =
     (case s_index s of
        Index _ \<Rightarrow>
          Inl (TypeError
            (''Only valid with DatetimeIndex, TimedeltaIndex or PeriodIndex, '' @
             ''but got an instance of '' @ py_quote ''Index''))
      | DatetimeIndex stamps \<Rightarrow>
          (let entries = sort_key (\<lambda>e. ts_key (fst e)) (zip stamps (s_vals s)) in
           if entries = [] then Inr []
           else
             (case year_bins (fst (hd entries)) (fst (last entries)) of
                Inl e \<Rightarrow> Inl e
              | Inr labels \<Rightarrow>
                  Inr (map (\<lambda>y. (y, filter (\<lambda>e. year (fst e) = y) entries)) labels))))"

text \<open>
  The union of two time indexes as \<^verbatim>\<open>concat\<close> combines them: an empty or equal index
  changes nothing, otherwise the union is put in order; a timestamp occurs as often as
  in the index where it occurs most.
\<close>

definition union2 :: "ts list \<Rightarrow> ts list \<Rightarrow> ts list" where
  "union2 a b =
     (if b = [] \<or> a = b then a
      else if a = [] then b
      else sort_key ts_key (a @ fold remove1 a b))"

text \<open>
  \<^verbatim>\<open>concat(grs, axis=1)\<close> on a dictionary of series indexed by time: no series at all is
  an error; the rows are the union of the indexes; a series whose index is not the union
  already is aligned to it, which needs its own index free of duplicates; a row that a
  series lacks is a missing cell.
\<close>

definition reindex :: "ts list \<Rightarrow> (ts \<times> cell) list \<Rightarrow> error + cell list" where
  "reindex rows entries =
     (if map fst entries = rows then Inr (map snd entries)
      else if \<not> distinct (map fst entries) then
        Inl (InvalidIndexError ''Reindexing only valid with uniquely valued Index objects'')
      else Inr (map (\<lambda>r. case map_of entries r of None \<Rightarrow> NaN | Some v \<Rightarrow> v) rows))"

definition concat_axis1 :: "(int \<times> (ts \<times> cell) list) list \<Rightarrow> error + pd_index dataframe" where
  "concat_axis1 grs =
     (case grs of
        [] \<Rightarrow> Inl (ValueError ''No objects to concatenate'')
      | g # gs \<Rightarrow>
          (let rows = fold (\<lambda>h acc. union2 acc (map fst (snd h))) gs (map fst (snd g)) in
           case for_each (\<lambda>h. reindex rows (snd h)) grs of
             Inl e \<Rightarrow> Inl e
           | Inr cols \<Rightarrow>
               Inr \<lparr>df_index = DatetimeIndex rows,
                    df_columns = zip (map (LInt \<circ> fst) grs) cols\<rparr>))"

text \<open>
  \<^verbatim>\<open>group_yearly_df\<close>: every group is re-keyed onto the year 2000 by printing its
  timestamps without the year and reading them back behind \<^verbatim>\<open>"2000-"\<close>.
\<close>

definition group_yearly_df :: "series \<Rightarrow> error + pd_index dataframe" where
  "group_yearly_df s =
     (case groupby_year s of
        Inl e \<Rightarrow> Inl e
      | Inr groups \<Rightarrow>
          (case for_each
                  (\<lambda>g. case for_each (\<lambda>e. to_datetime_format (''2000-'' @ strftime (fst e)))
                                (snd g) of
                         Inl e \<Rightarrow> Inl e
                       | Inr stamps \<Rightarrow> Inr (fst g, zip stamps (map snd (snd g))))
                  groups of
             Inl e \<Rightarrow> Inl e
           | Inr grs \<Rightarrow> concat_axis1 grs))"

text \<open>
  \<^verbatim>\<open>get_data_series\<close>. The strings of \<open>idx\<close> are built column after column; the test of
  line 97 looks at the text between the first \<open>-\<close> and the first blank, the test of line
  98 (evaluated only when the first holds) reads the text before the first \<open>-\<close> as an
  integer. With no string at all the array is one of floats, which \<open>~\<close> rejects.
\<close>

definition feb29_nonleap :: "string \<Rightarrow> error + bool" where
  "feb29_nonleap x =
     (case item (split_on CHR '' '' x) 0 of
        Inl e \<Rightarrow> Inl e
      | Inr date \<Rightarrow>
          (case item (split_once CHR ''-'' date) 1 of
             Inl e \<Rightarrow> Inl e
           | Inr md \<Rightarrow>
               if md = ''02-29'' then
                 (case item (split_on CHR ''-'' date) 0 of
                    Inl e \<Rightarrow> Inl e
                  | Inr y \<Rightarrow> (case py_int y of Inl e \<Rightarrow> Inl e | Inr n \<Rightarrow> Inr (\<not> isleap n)))
               else Inr False))"

definition get_data_series :: "pd_index dataframe \<Rightarrow> error + series" where
  "get_data_series group_df =
     (case for_each
             (\<lambda>col. case df_index group_df of
                       Index _ \<Rightarrow>
                         Inl (AttributeError
                           (py_quote ''Index'' @ '' object has no attribute '' @
                            py_quote ''strftime''))
                     | DatetimeIndex stamps \<Rightarrow>
                         Inr (map (\<lambda>t. py_str (fst col) @ ''-'' @ strftime t) stamps))
             (df_columns group_df) of
        Inl e \<Rightarrow> Inl e
      | Inr per_col \<Rightarrow>
          (let idx = concat per_col in
           if idx = [] then
             Inl (TypeError (''ufunc '' @ py_quote ''invert'' @ '' not supported for the input types''))
           else
             (case for_each feb29_nonleap idx of
                Inl e \<Rightarrow> Inl e
              | Inr flags \<Rightarrow>
                  (let boolidx = map Not flags in
                   case for_each to_datetime_format (select idx boolidx) of
                     Inl e \<Rightarrow> Inl e
                   | Inr dt_idx \<Rightarrow>
                       (let vals = select (concat (map snd (df_columns group_df))) boolidx
                        in Inr (dropna \<lparr>s_index = DatetimeIndex dt_idx, s_vals = vals\<rparr>))))))"


section \<open>Index validator\<close>

text \<open>
  A datetime index as \<^verbatim>\<open>to_datetime\<close> builds it: a timestamp or the missing timestamp
  \<^verbatim>\<open>NaT\<close> (here \<open>None\<close>) at every position.
\<close>

type_synonym datetime_index = "ts option list"

text \<open>
  An integer label is a number of nanoseconds since 1970-01-01. The least 64-bit
  integer is read as \<^verbatim>\<open>NaT\<close>; an integer that does not fit 64 bits is out of bounds.
\<close>

definition to_datetime_int :: "int \<Rightarrow> error + ts option" where
  "to_datetime_int n =
     (if n = - (2 ^ 63) then Inr None
      else if - (2 ^ 63) < n \<and> n < 2 ^ 63 then Inr (Some (from_epoch_ns n))
      else Inl (OutOfBoundsDatetime (''Out of bounds nanosecond timestamp: '' @ py_str_int n)))"

fun is_str :: "label \<Rightarrow> bool" where
  "is_str (LStr _) = True"
| "is_str _ = False"

text \<open>
  A label that is not a string: an integer is converted, a boolean is not convertible.
  (A string never comes here: an index that holds one goes to the date parser.)
\<close>

fun to_datetime_number :: "label \<Rightarrow> error + ts option" where
  "to_datetime_number (LInt n) = to_datetime_int n"
| "to_datetime_number (LBool b) =
     Inl (TypeError (class_repr ''bool'' @ '' is not convertible to datetime''))"
| "to_datetime_number (LStr s) = Inl (ValueError ''Unknown datetime string format'')"

text \<open>
  \<^verbatim>\<open>to_datetime(index)\<close> converts the index as a whole. Where the index holds a string, the
  date parser of pandas decides on all the labels together (it settles on one format for
  the index, so strings that convert one by one may be rejected together): the parser
  is a parameter of the model, which either rejects the index or gives every label its
  timestamp. An index without strings is converted label by label, in order, and the
  first label that does not convert ends the conversion.
\<close>

definition to_datetime ::
  "(label list \<Rightarrow> error + (label \<Rightarrow> ts option)) \<Rightarrow> label list \<Rightarrow> error + datetime_index" where
  "to_datetime parser labels =
     (if list_ex is_str labels then
        (case parser labels of Inl e \<Rightarrow> Inl e | Inr stamp_of \<Rightarrow> Inr (map stamp_of labels))
      else for_each to_datetime_number labels)"

definition index_type_name :: "pd_index \<Rightarrow> string" where
  "index_type_name ix =
     (case ix of
        DatetimeIndex _ \<Rightarrow> ''pandas.core.indexes.datetimes.DatetimeIndex''
      | Index _ \<Rightarrow> ''pandas.core.indexes.base.Index'')"

definition conversion_info :: "pd_index \<Rightarrow> string" where
  "conversion_info ix =
     ''Expected the index to be a DatetimeIndex. Automatically converted '' @
     class_repr (index_type_name ix) @ '' using pd.to_datetime(Index)''"

text \<open>
  \<^verbatim>\<open>validate_index\<close>, on an index object (which always has a \<^verbatim>\<open>copy\<close> method): the message
  is logged before the conversion is tried.
\<close>

definition validate_index ::
  "(label list \<Rightarrow> error + (label \<Rightarrow> ts option)) \<Rightarrow> pd_index \<Rightarrow>
     log_record list \<times> (error + datetime_index)" where
  "validate_index parser arg =
     (let index = arg in
      case index of
        DatetimeIndex stamps \<Rightarrow> ([], Inr (map Some stamps))
      | Index labels \<Rightarrow> ([(INFO, conversion_info index)], to_datetime parser labels))"

text \<open>
  A stand-in for the date parser, for evaluating on concrete input: it accepts an index
  only when every label is a string in the format \<^verbatim>\<open>%Y-%m-%d %H:%M:%S\<close>.
\<close>

definition iso_parser :: "label list \<Rightarrow> error + (label \<Rightarrow> ts option)" where
  "iso_parser labels =
     (if list_all (\<lambda>l. case l of LStr s \<Rightarrow> strptime s \<noteq> None | _ \<Rightarrow> False) labels then
        Inr (\<lambda>l. case l of LStr s \<Rightarrow> strptime s | _ \<Rightarrow> None)
      else Inl (ValueError ''Unknown datetime string format''))"

text \<open>The timestamps of the first nanoseconds of 1970.\<close>

definition stamp_1970 :: "nat \<Rightarrow> ts" where
  "stamp_1970 ns = \<lparr>year = 1970, month = 1, day = 1, hour = 0, minute = 0, second = 0,
      nanosecond = ns\<rparr>"

section \<open>Yearly tables and the flattening the specification describes\<close>

text \<open>
  Substituting a year into a timestamp of the row index: month, day and time of day are
  kept, and nothing below the second survives the format.
\<close>

definition rekey :: "int \<Rightarrow> ts \<Rightarrow> ts" where
  "rekey y t = t\<lparr>year := y, nanosecond := 0\<rparr>"

definition is_feb29 :: "ts \<Rightarrow> bool" where
  "is_feb29 t = (month t = 2 \<and> day t = 29)"

text \<open>
  A yearly table: the rows are timestamps, every column is labelled by an integer year.
\<close>

definition yearly_table :: "ts list \<Rightarrow> (int \<times> cell list) list \<Rightarrow> pd_index dataframe" where
  "yearly_table rows ycols =
     \<lparr>df_index = DatetimeIndex rows, df_columns = map (\<lambda>c. (LInt (fst c), snd c)) ycols\<rparr>"

text \<open>
  The cells of a yearly table as (year, row, value), column after column and row after
  row within a column.
\<close>

definition cells_of :: "ts list \<Rightarrow> (int \<times> cell list) list \<Rightarrow> (int \<times> ts \<times> cell) list" where
  "cells_of rows ycols =
     concat (map (\<lambda>c. map (\<lambda>e. (fst c, fst e, snd e)) (zip rows (snd c))) ycols)"

text \<open>A cell on the row of February 29 in a column whose year is not a leap year.\<close>

definition discarded :: "int \<times> ts \<times> cell \<Rightarrow> bool" where
  "discarded x = (is_feb29 (fst (snd x)) \<and> \<not> isleap (fst x))"

text \<open>
  The flattening in the words of the specification: for each column and each row the
  real timestamp is built with the column's year; the February 29 cells of non-leap years
  are discarded; the entries with a missing value are dropped.
\<close>

definition flatten_spec :: "ts list \<Rightarrow> (int \<times> cell list) list \<Rightarrow> (ts \<times> cell) list" where
  "flatten_spec rows ycols =
     map (\<lambda>x. (rekey (fst x) (fst (snd x)), snd (snd x)))
       (filter (\<lambda>x. snd (snd x) \<noteq> NaN)
          (filter (\<lambda>x. \<not> discarded x) (cells_of rows ycols)))"

definition series_of_entries :: "(ts \<times> cell) list \<Rightarrow> series" where
  "series_of_entries es = \<lparr>s_index = DatetimeIndex (map fst es), s_vals = map snd es\<rparr>"

text \<open>
  A column of a yearly table with \<open>n\<close> rows: its year lies in the years that timestamps
  cover in full, and it has one cell per row.
\<close>

definition year_column :: "nat \<Rightarrow> int \<times> cell list \<Rightarrow> bool" where
  "year_column n c = (1678 \<le> fst c \<and> fst c \<le> 2261 \<and> length (snd c) = n)"


text \<open>
  A series that spans whole calendar years at a regular cadence: the same template of
  times of the year, repeated for each year, with the values of each year.
\<close>

definition series_of_years :: "ts list \<Rightarrow> (int \<times> cell list) list \<Rightarrow> series" where
  "series_of_years tpl ycols =
     \<lparr>s_index = DatetimeIndex (concat (map (\<lambda>c. map (rekey (fst c)) tpl) ycols)),
      s_vals = concat (map snd ycols)\<rparr>"


text \<open>The daily template: the 365 days of a common year, at midnight.\<close>

definition midnight :: "nat \<Rightarrow> nat \<Rightarrow> ts" where
  "midnight m d = \<lparr>year = 2001, month = m, day = d, hour = 0, minute = 0, second = 0,
     nanosecond = 0\<rparr>"

definition daily_template :: "ts list" where
  "daily_template =
     concat (map (\<lambda>m. map (midnight m) [1..<Suc (days_in_month 2001 m)]) [1..<13])"

text \<open>Concrete input: two years of daily values, and a table with a row of February 29.\<close>

definition two_years :: "(int \<times> cell list) list" where
  "two_years =
     [(2001, map (\<lambda>k. CInt (int k)) [0..<365]), (2002, map (\<lambda>k. CInt (365 + int k)) [0..<365])]"

text \<open>
  One year of daily values whose first entry is missing, and the daily values of 2261,
  the last calendar year that timestamps cover in full.
\<close>

definition gap_year :: "(int \<times> cell list) list" where
  "gap_year = [(2001, NaN # map (\<lambda>k. CInt (int k)) [1..<365])]"

definition year_2261 :: "(int \<times> cell list) list" where
  "year_2261 = [(2261, map (\<lambda>k. CInt (int k)) [0..<365])]"

definition feb_rows :: "ts list" where
  "feb_rows =
     [\<lparr>year = 2000, month = 2, day = 28, hour = 0, minute = 0, second = 0, nanosecond = 0\<rparr>,
      \<lparr>year = 2000, month = 2, day = 29, hour = 0, minute = 0, second = 0, nanosecond = 0\<rparr>]"

definition feb_cols :: "(int \<times> cell list) list" where
  "feb_cols = [(2000, [CInt 1, CInt 2]), (2001, [CInt 3, CInt 4])]"

section \<open>Properties of the validator\<close>

lemma validate_series_list:
  "validate_series (PyList xs) =
     ([], Inl (TypeError (''Please provide a Pandas Series instead of '' @ class_repr ''list'')))"
  by (simp add: validate_series_def py_copy_def)

lemma validate_series_multi_column:
  "length (df_columns df) \<noteq> 1 \<Longrightarrow>
   validate_series (DataFrame df) =
     ([], Inl (TypeError ''Please provide a pandas.Series instead of a pandas.DataFrame''))"
  by (simp add: validate_series_def py_copy_def)

lemma validate_series_series:
  "validate_series (Series s) = ([], Inr (Series s))"
  by (simp add: validate_series_def py_copy_def)

text \<open>
  Claim C6. Every multi-column table and every input that is neither a series nor a
  table is rejected with the input-type error (\<open>TypeError\<close>). The lemmas above show this
  for tables and for lists; it fails for an input without a \<^verbatim>\<open>copy\<close> method, where the
  copy in the first line of the function raises before the type is looked at: on the
  integer \<open>5\<close> the call ends in \<open>AttributeError\<close>.
\<close>

theorem validate_series_int_attribute_error:
  "validate_series (PyInt 5) =
     ([], Inl (AttributeError
        (py_quote ''int'' @ '' object has no attribute '' @ py_quote ''copy'')))"
  by (simp add: validate_series_def py_copy_def)

text \<open>
  A one-column table: the call emits the automatic-conversion warning, and when the
  number of rows is not one it returns what the call on the squeezed table returns,
  the series of the only column.
\<close>

lemma validate_series_one_column:
  assumes "length (df_columns df) = 1"
  shows "fst (validate_series (DataFrame df)) = [(WARNING, squeeze_warning)] \<and>
    (index_len (df_index df) \<noteq> 1 \<longrightarrow>
       snd (validate_series (DataFrame df)) = snd (validate_series (squeeze df)) \<and>
       snd (validate_series (DataFrame df)) =
         Inr (Series \<lparr>s_index = df_index df, s_vals = snd (hd (df_columns df))\<rparr>))"
  using assms by (simp add: validate_series_def py_copy_def squeeze_def Let_def)

lemma validate_series_three_rows:
  "length (df_columns table_3x1) = 1 \<and> index_len (df_index table_3x1) = 3 \<and>
   fst (validate_series (DataFrame table_3x1)) = [(WARNING, squeeze_warning)] \<and>
   snd (validate_series (DataFrame table_3x1)) = snd (validate_series (squeeze table_3x1)) \<and>
   snd (validate_series (DataFrame table_3x1)) =
     Inr (Series \<lparr>s_index = Index [LInt 1, LInt 2, LInt 3], s_vals = [CInt 1, CInt 2, CInt 3]\<rparr>)"
proof -
  have one: "length (df_columns table_3x1) = 1"
    by (simp add: table_3x1_def)
  have rows: "index_len (df_index table_3x1) = 3"
    by (simp add: table_3x1_def index_len_def)
  have cells: "df_index table_3x1 = Index [LInt 1, LInt 2, LInt 3]"
    "snd (hd (df_columns table_3x1)) = [CInt 1, CInt 2, CInt 3]"
    by (simp_all add: table_3x1_def)
  have neq: "index_len (df_index table_3x1) \<noteq> 1"
    using rows by simp
  from validate_series_one_column [OF one] neq
  have "fst (validate_series (DataFrame table_3x1)) = [(WARNING, squeeze_warning)]"
    and "snd (validate_series (DataFrame table_3x1)) = snd (validate_series (squeeze table_3x1))"
    and "snd (validate_series (DataFrame table_3x1)) =
        Inr (Series \<lparr>s_index = df_index table_3x1, s_vals = snd (hd (df_columns table_3x1))\<rparr>)"
    by blast+
  with one rows show ?thesis
    unfolding cells by blast
qed

text \<open>
  Claim C7. For every one-column table \<open>T\<close>, \<^verbatim>\<open>validate_series(T)\<close> equals
  \<^verbatim>\<open>validate_series(T.squeeze())\<close> and emits the conversion warning. The code misses the
  table of one row and one column: \<^verbatim>\<open>squeeze()\<close>, called without an axis, turns it into
  a scalar, so the call logs that the table was converted to a series and returns the
  scalar, which the call on the squeezed table rejects with the input-type error.
\<close>

theorem validate_series_one_cell:
  "length (df_columns table_1x1) = 1 \<and>
   fst (validate_series (DataFrame table_1x1)) = [(WARNING, squeeze_warning)] \<and>
   snd (validate_series (DataFrame table_1x1)) = Inr (Scalar (CInt 1)) \<and>
   snd (validate_series (squeeze table_1x1)) =
     Inl (TypeError (''Please provide a Pandas Series instead of '' @ class_repr ''numpy.int64'')) \<and>
   snd (validate_series (DataFrame table_1x1)) \<noteq> snd (validate_series (squeeze table_1x1))"
  by (simp add: validate_series_def py_copy_def squeeze_def Let_def table_1x1_def index_len_def)

text \<open>
  Claim C9. \<^verbatim>\<open>validate_series\<close> calls the \<^verbatim>\<open>copy\<close> method of its argument before any type
  check: on every object without that method (an \<^verbatim>\<open>int\<close>, a \<^verbatim>\<open>tuple\<close>) the call raises
  \<open>AttributeError\<close>, not the input-type error, and logs nothing.
\<close>

theorem validate_series_copy_first:
  assumes "\<not> has_copy x"
  shows "validate_series x =
      ([], Inl (AttributeError
         (py_quote (type_name x) @ '' object has no attribute '' @ py_quote ''copy'')))
    \<and> (\<forall>m. snd (validate_series x) \<noteq> Inl (TypeError m))"
  using assms by (simp add: validate_series_def py_copy_def)

theorem validate_series_copy_first_witness:
  "\<not> has_copy (PyTuple [PyInt 1, PyInt 2, PyInt 3]) \<and> \<not> has_copy (PyInt 7) \<and>
   validate_series (PyTuple [PyInt 1, PyInt 2, PyInt 3]) =
     ([], Inl (AttributeError
        (py_quote ''tuple'' @ '' object has no attribute '' @ py_quote ''copy'')))"
  using validate_series_copy_first [of "PyTuple [PyInt 1, PyInt 2, PyInt 3]"] by simp

section \<open>Properties of the fit-tester and the evaluator\<close>

lemma for_each_Inr:
  "for_each f xs = Inr ys \<Longrightarrow> length ys = length xs \<and> (\<forall>i < length xs. f (xs ! i) = Inr (ys ! i))"
proof (induction xs arbitrary: ys)
  case Nil
  then show ?case by simp
next
  case (Cons x xs)
  then show ?case
    by (auto split: sum.splits simp: nth_Cons split: nat.splits)
qed

lemma for_each_all_ok:
  "list_all (\<lambda>x. \<exists>y. f x = Inr y) xs \<Longrightarrow> \<exists>ys. for_each f xs = Inr ys"
  by (induction xs) (auto split: sum.splits)

lemma for_each_map:
  "for_each f xs = Inr ys \<Longrightarrow> (\<And>x y. f x = Inr y \<Longrightarrow> g y = h x) \<Longrightarrow> map g ys = map h xs"
  by (induction xs arbitrary: ys) (auto split: sum.splits)

lemma dist_test_Inr:
  "dist_test lib series D N alpha = Inr r \<Longrightarrow>
     fst r = name D \<and> fst (snd (snd r)) = float_lt (fst (snd r)) alpha"
  by (auto simp: dist_test_def Let_def split: sum.splits)

lemma foldr_max_const:
  "list_all (\<lambda>r. length r = k) rows \<Longrightarrow>
   foldr max (map length rows) 0 = (if rows = [] then 0 else k)"
  by (induction rows) auto

lemma row_cells_at:
  "cell_at (row_cells r) 0 = CStr (fst r)"
  "cell_at (row_cells r) (Suc 0) = cell_of_float (fst (snd r))"
  "cell_at (row_cells r) 2 = CBool (fst (snd (snd r)))"
  "cell_at (row_cells r) 3 = CTuple (snd (snd (snd r)))"
  "length (row_cells r) = 4"
  by (simp_all add: cell_at_def row_cells_def split: prod.splits)

lemma dists_test_table:
  assumes ok: "for_each (\<lambda>D. dist_test lib series D N alpha) ds = Inr results"
    and ne: "ds \<noteq> []"
  shows "dists_test lib series (Some ds) N alpha =
     Inr \<lparr>df_index = map (\<lambda>r. CStr (fst r)) results,
          df_columns =
            [(LStr ''KS p-value'', map (\<lambda>r. cell_of_float (fst (snd r))) results),
             (LStr ''Reject H0'', map (\<lambda>r. CBool (fst (snd (snd r)))) results),
             (LStr ''Param 1'', map (\<lambda>r. CTuple (snd (snd (snd r)))) results),
             (LStr ''Dist'', map CObj ds)]\<rparr>"
proof -
  have len: "length results = length ds"
    using for_each_Inr [OF ok] by simp
  then have rne: "map row_cells results \<noteq> []"
    using ne by auto
  have "list_all (\<lambda>r. length r = 4) (map row_cells results)"
    by (simp add: list_all_iff row_cells_at)
  from foldr_max_const [OF this] rne
  have width: "foldr max (map length (map row_cells results)) 0 = 4"
    by simp
  have upt4: "[0..<4] = [0, 1, 2, 3]"
    by (simp add: upt_rec)
  have cols: "df_columns (DataFrame_of_rows (map row_cells results)) =
      [(LInt 0, map (\<lambda>r. CStr (fst r)) results),
       (LInt 1, map (\<lambda>r. cell_of_float (fst (snd r))) results),
       (LInt 2, map (\<lambda>r. CBool (fst (snd (snd r)))) results),
       (LInt 3, map (\<lambda>r. CTuple (snd (snd (snd r)))) results)]"
    unfolding DataFrame_of_rows_def width upt4
    by (simp add: row_cells_at comp_def)
  show ?thesis
    unfolding dists_test_def
    by (simp add: ok Let_def cols rename_columns_def py_dict_def set_index_def set_column_def
        len str_nat.simps digit_char_def digits_def)
qed


lemma dist_test_returns_iff:
  "(\<exists>r. dist_test lib series D N alpha = Inr r) \<longleftrightarrow>
   (\<exists>fitted. fit lib D series (std lib series) = Inr fitted \<and>
      (\<exists>res. kstest lib series (name D) fitted N = Inr res))"
  by (auto simp: dist_test_def Let_def split: sum.splits)

lemma dists_test_None:
  "dists_test lib series None N alpha = dists_test lib series (Some default_distributions) N alpha"
  by (simp add: dists_test_def)

text \<open>
  Claim C3 (as amended). Whenever the fit and the test of the statistics library
  return, \<^verbatim>\<open>dist_test(sample, dist, N, alpha)\<close> returns the 4-tuple of the distribution's
  name, the p-value that the test returned, the reject flag and the fitted parameters;
  the flag is true exactly when the p-value is a number strictly below \<open>alpha\<close>. For
  \<open>norm\<close> the first component is \<open>''norm''\<close>, and with the default arguments the flag is
  \<open>p < 0.05\<close>.
\<close>

theorem dist_test_decision_rule:
  assumes fit_ok: "fit lib D series (std lib series) = Inr fitted"
    and ks_ok: "kstest lib series (name D) fitted N = Inr (stat, p)"
  shows "dist_test lib series D N alpha = Inr (name D, p, float_lt p alpha, fitted) \<and>
      (float_lt p alpha \<longleftrightarrow> (\<exists>v. p = FNum v \<and> v < alpha)) \<and>
      (D = Norm \<longrightarrow> name D = ''norm'') \<and>
      (N = 100 \<longrightarrow>
         dist_test_default lib series D = Inr (name D, p, float_lt p 0.05, fitted))"
proof -
  have "float_lt p alpha \<longleftrightarrow> (\<exists>v. p = FNum v \<and> v < alpha)"
    by (cases p) simp_all
  moreover have "dist_test lib series D N a = Inr (name D, p, float_lt p a, fitted)" for a
    using assms by (simp add: dist_test_def Let_def)
  ultimately show ?thesis
    by (auto simp: dist_test_default_def)
qed

theorem dist_test_decision_rule_witness:
  "fit toy_stats Norm [1, 2, 3] (std toy_stats [1, 2, 3]) = Inr [0, 2] \<and>
   kstest toy_stats [1, 2, 3] (name Norm) [0, 2] 100 = Inr (FNum (1 / 10), FNum (1 / 2)) \<and>
   dist_test toy_stats [1, 2, 3] Norm 100 0.05 = Inr (''norm'', FNum (1 / 2), False, [0, 2]) \<and>
   dist_test_default toy_stats [1, 2, 3] Norm = Inr (''norm'', FNum (1 / 2), False, [0, 2])"
proof -
  have fit_ok: "fit toy_stats Norm [1, 2, 3] (std toy_stats [1, 2, 3]) = Inr [0, 2]"
    by (simp add: toy_stats_def)
  have ks_ok: "kstest toy_stats [1, 2, 3] (name Norm) [0, 2] 100 =
      Inr (FNum (1 / 10), FNum (1 / 2))"
    by (simp add: toy_stats_def)
  from dist_test_decision_rule [OF fit_ok ks_ok, of "0.05"] fit_ok ks_ok show ?thesis
    by simp
qed

text \<open>
  Claim C3 as stated fails on a constant sample: the p-value that comes back is
  \<^verbatim>\<open>nan\<close>, which is not in \<open>[0,1]\<close>, and the flag is false.
\<close>

theorem dist_test_nan_counterexample:
  "dist_test constant_sample_stats [1, 1, 1] Norm 100 0.05 =
     Inr (''norm'', FNan, False, [1, 0]) \<and>
   \<not> in_unit_interval FNan"
  by (simp add: dist_test_def constant_sample_stats_def)

text \<open>
  Claim C4. Called without a list of distributions, and with every fit and test
  returning, \<^verbatim>\<open>dists_test\<close> returns a table of exactly 8 rows, indexed by the names of the
  eight default families in their order, whose column \<open>Dist\<close> holds the eight distribution
  objects in that order.
\<close>

theorem dists_test_default_rows:
  assumes ok: "list_all (\<lambda>D. \<exists>r. dist_test lib series D N alpha = Inr r) default_distributions"
  shows "\<exists>df. dists_test lib series None N alpha = Inr df \<and>
      length (df_index df) = 8 \<and>
      df_index df = [CStr ''norm'', CStr ''gamma'', CStr ''genextreme'', CStr ''pearson3'',
                     CStr ''fisk'', CStr ''lognorm'', CStr ''logistic'', CStr ''genlogistic''] \<and>
      map_of (df_columns df) (LStr ''Dist'') = Some (map CObj default_distributions) \<and>
      list_all (\<lambda>c. length (snd c) = 8) (df_columns df)"
proof -
  from for_each_all_ok [OF ok] obtain results
    where res: "for_each (\<lambda>D. dist_test lib series D N alpha) default_distributions = Inr results"
    by blast
  have ne: "default_distributions \<noteq> []"
    by (simp add: default_distributions_def)
  have names: "map fst results = map name default_distributions"
    by (rule for_each_map [OF res]) (simp add: dist_test_Inr)
  have len: "length results = 8"
    using for_each_Inr [OF res] by (simp add: default_distributions_def)
  have idx: "map (\<lambda>r. CStr (fst r)) results = map CStr (map fst results)"
    by simp
  show ?thesis
    unfolding dists_test_None dists_test_table [OF res ne]
    by (simp add: len idx names) (simp add: default_distributions_def)
qed


theorem dists_test_default_rows_witness:
  "list_all (\<lambda>D. \<exists>r. dist_test toy_stats [1, 2, 3] D 100 0.05 = Inr r) default_distributions \<and>
   (\<exists>df. dists_test toy_stats [1, 2, 3] None 100 0.05 = Inr df \<and>
      length (df_index df) = 8 \<and>
      df_index df = [CStr ''norm'', CStr ''gamma'', CStr ''genextreme'', CStr ''pearson3'',
                     CStr ''fisk'', CStr ''lognorm'', CStr ''logistic'', CStr ''genlogistic''] \<and>
      map_of (df_columns df) (LStr ''Dist'') = Some (map CObj default_distributions))"
proof -
  have ok: "list_all (\<lambda>D. \<exists>r. dist_test toy_stats [1, 2, 3] D 100 0.05 = Inr r)
      default_distributions"
  proof -
    have "dist_test toy_stats [1, 2, 3] D 100 0.05 =
        Inr (name D, FNum (if name D = ''gamma'' then 1 / 100 else 1 / 2),
             name D = ''gamma'', if D = Norm then [0, 2] else [1, 0, 2])" for D
      by (simp add: dist_test_def toy_stats_def)
    then have "\<exists>r. dist_test toy_stats [1, 2, 3] D 100 0.05 = Inr r" for D
      by (rule exI)
    then show ?thesis
      unfolding list_all_iff by blast
  qed
  from dists_test_default_rows [OF ok] ok show ?thesis
    by blast
qed

text \<open>
  The columns of the table. Since the fitted parameters arrive as one tuple object in
  the fourth position of every row, the table built from the rows has four columns and
  there is always exactly one parameter column, \<open>Param 1\<close>, holding the tuples.
\<close>

lemma dists_test_column_labels:
  assumes "for_each (\<lambda>D. dist_test lib series D N alpha) ds = Inr results" and "ds \<noteq> []"
  shows "\<exists>df. dists_test lib series (Some ds) N alpha = Inr df \<and>
     map fst (df_columns df) =
       [LStr ''KS p-value'', LStr ''Reject H0'', LStr ''Param 1'', LStr ''Dist'']"
  by (simp add: dists_test_table [OF assms])

text \<open>
  Claim C5. The table has as many parameter columns as the longest fitted parameter
  tuple, shorter tuples leaving their trailing columns empty. The code does not do this:
  for the normal family (two parameters) and the gamma family (three) the table has the
  single parameter column \<open>Param 1\<close>, whose cells are the two tuples.
\<close>

theorem dists_test_norm_gamma_one_param_column:
  "dists_test toy_stats [1, 2, 3] (Some [Norm, Gamma]) 100 0.05 =
     Inr \<lparr>df_index = [CStr ''norm'', CStr ''gamma''],
          df_columns =
            [(LStr ''KS p-value'', [CNum (1 / 2), CNum (1 / 100)]),
             (LStr ''Reject H0'', [CBool False, CBool True]),
             (LStr ''Param 1'', [CTuple [0, 2], CTuple [1, 0, 2]]),
             (LStr ''Dist'', [CObj Norm, CObj Gamma])]\<rparr>"
proof -
  have "for_each (\<lambda>D. dist_test toy_stats [1, 2, 3] D 100 0.05) [Norm, Gamma] =
      Inr [(''norm'', FNum (1 / 2), False, [0, 2]), (''gamma'', FNum (1 / 100), True, [1, 0, 2])]"
    by (simp add: dist_test_def toy_stats_def)
  from dists_test_table [OF this] show ?thesis
    by simp
qed

section \<open>Properties of the index validator and of the empty series\<close>

lemma group_yearly_df_no_entries:
  assumes "index_len (s_index s) = 0"
  shows "\<exists>e. group_yearly_df s = Inl e"
proof (cases "s_index s")
  case (DatetimeIndex stamps)
  with assms have "stamps = []"
    by (simp add: index_len_def)
  with DatetimeIndex show ?thesis
    by (simp add: group_yearly_df_def groupby_year_def concat_axis1_def)
next
  case (Index ls)
  then show ?thesis
    by (simp add: group_yearly_df_def groupby_year_def)
qed

text \<open>
  Claim C10. On an empty series there is no year group, and \<^verbatim>\<open>group_yearly_df\<close> raises
  the exception of concatenating nothing instead of returning an empty table.
\<close>

theorem group_yearly_df_empty_series:
  "group_yearly_df \<lparr>s_index = DatetimeIndex [], s_vals = []\<rparr> =
     Inl (ValueError ''No objects to concatenate'')"
  by (simp add: group_yearly_df_def groupby_year_def concat_axis1_def)

lemma for_each_length:
  "for_each f xs = Inr ys \<Longrightarrow> length ys = length xs"
  by (induction xs arbitrary: ys) (auto split: sum.splits)

lemma to_datetime_length:
  assumes "to_datetime parser labels = Inr stamps"
  shows "length stamps = length labels"
  using assms
  by (auto simp: to_datetime_def dest: for_each_length split: if_splits sum.splits)

lemma to_datetime_integers:
  assumes "list_all (\<lambda>n. - (2 ^ 63) \<le> n \<and> n < 2 ^ 63) ns"
  shows "to_datetime parser (map LInt ns) =
    Inr (map (\<lambda>n. if n = - (2 ^ 63) then None else Some (from_epoch_ns n)) ns)"
proof -
  have "for_each to_datetime_number (map LInt ns) =
      Inr (map (\<lambda>n. if n = - (2 ^ 63) then None else Some (from_epoch_ns n)) ns)"
    using assms by (induction ns) (auto simp: to_datetime_int_def)
  moreover have "\<not> list_ex is_str (map LInt ns)"
    by (simp add: list_ex_iff)
  ultimately show ?thesis
    by (simp add: to_datetime_def)
qed

lemma to_datetime_boolean_first:
  assumes "\<not> list_ex is_str labels"
  shows "to_datetime parser (LBool b # labels) =
    Inl (TypeError (class_repr ''bool'' @ '' is not convertible to datetime''))"
  using assms by (simp add: to_datetime_def)

text \<open>
  Claim C8 (as amended). For every index that is not datetime-typed, \<^verbatim>\<open>validate_index\<close>
  emits the informational message and then returns or raises as the conversion of the
  whole index does; whenever it returns, the datetime index has the length of the input;
  every index of integers that fit 64 bits converts, each integer being read as
  nanoseconds since 1970 (the least 64-bit integer as the missing timestamp).
\<close>

theorem validate_index_coerces:
  "fst (validate_index parser (Index labels)) = [(INFO, conversion_info (Index labels))] \<and>
   snd (validate_index parser (Index labels)) = to_datetime parser labels \<and>
   (\<forall>stamps. snd (validate_index parser (Index labels)) = Inr stamps \<longrightarrow>
      length stamps = length labels) \<and>
   (\<forall>ns. labels = map LInt ns \<and> list_all (\<lambda>n. - (2 ^ 63) \<le> n \<and> n < 2 ^ 63) ns \<longrightarrow>
      snd (validate_index parser (Index labels)) =
        Inr (map (\<lambda>n. if n = - (2 ^ 63) then None else Some (from_epoch_ns n)) ns))"
proof -
  have v: "validate_index parser (Index labels) =
      ([(INFO, conversion_info (Index labels))], to_datetime parser labels)"
    by (simp add: validate_index_def)
  show ?thesis
    unfolding v using to_datetime_length [of parser labels] to_datetime_integers [of _ parser]
    by auto
qed

lemma from_epoch_ns_small:
  "from_epoch_ns 1 = stamp_1970 1" "from_epoch_ns 2 = stamp_1970 2" "from_epoch_ns 3 = stamp_1970 3"
  by code_simp+

theorem validate_index_coerces_witness:
  "list_all (\<lambda>n. - (2 ^ 63) \<le> n \<and> n < 2 ^ 63) [1, 2, 3 :: int] \<and>
   validate_index iso_parser (Index [LInt 1, LInt 2, LInt 3]) =
     ([(INFO, conversion_info (Index [LInt 1, LInt 2, LInt 3]))],
      Inr [Some (stamp_1970 1), Some (stamp_1970 2), Some (stamp_1970 3)])"
proof -
  have rng: "list_all (\<lambda>n. - (2 ^ 63) \<le> n \<and> n < 2 ^ 63) [1, 2, 3 :: int]"
    by simp
  have lbl: "[LInt 1, LInt 2, LInt 3] = map LInt [1, 2, 3]"
    by simp
  note t = validate_index_coerces [of iso_parser "[LInt 1, LInt 2, LInt 3]"]
  have a: "fst (validate_index iso_parser (Index [LInt 1, LInt 2, LInt 3])) =
      [(INFO, conversion_info (Index [LInt 1, LInt 2, LInt 3]))]"
    using t by (rule conjunct1)
  have prem: "[LInt 1, LInt 2, LInt 3] = map LInt [1, 2, 3] \<and>
      list_all (\<lambda>n. - (2 ^ 63) \<le> n \<and> n < 2 ^ 63) [1, 2, 3 :: int]"
    using lbl rng by (rule conjI)
  have "[LInt 1, LInt 2, LInt 3] = map LInt [1, 2, 3] \<and>
      list_all (\<lambda>n. - (2 ^ 63) \<le> n \<and> n < 2 ^ 63) [1, 2, 3 :: int] \<longrightarrow>
    snd (validate_index iso_parser (Index [LInt 1, LInt 2, LInt 3])) =
      Inr (map (\<lambda>n. if n = - (2 ^ 63) then None else Some (from_epoch_ns n)) [1, 2, 3])"
    using t [THEN conjunct2, THEN conjunct2, THEN conjunct2] by (rule spec)
  then have b: "snd (validate_index iso_parser (Index [LInt 1, LInt 2, LInt 3])) =
      Inr (map (\<lambda>n. if n = - (2 ^ 63) then None else Some (from_epoch_ns n)) [1, 2, 3])"
    using prem by (rule mp)
  from a b have "validate_index iso_parser (Index [LInt 1, LInt 2, LInt 3]) =
     ([(INFO, conversion_info (Index [LInt 1, LInt 2, LInt 3]))],
      Inr [Some (stamp_1970 1), Some (stamp_1970 2), Some (stamp_1970 3)])"
    by (simp add: prod_eq_iff from_epoch_ns_small)
  with rng show ?thesis
    by (rule conjI)
qed

text \<open>
  Claim C8 as stated fails on an index that the conversion rejects: an index of
  booleans is not datetime-typed, and the call raises after logging.
\<close>

theorem validate_index_bool_counterexample:
  "validate_index iso_parser (Index [LBool True, LBool False]) =
     ([(INFO, conversion_info (Index [LBool True, LBool False]))],
      Inl (TypeError (class_repr ''bool'' @ '' is not convertible to datetime'')))"
  by (simp add: validate_index_def to_datetime_def)

lemma validate_index_nat:
  "validate_index parser (Index [LInt (- (2 ^ 63))]) =
     ([(INFO, conversion_info (Index [LInt (- (2 ^ 63))]))], Inr [None])"
  by (simp add: validate_index_def to_datetime_def to_datetime_int_def)

lemma validate_index_datetime:
  "validate_index parser (DatetimeIndex stamps) = ([], Inr (map Some stamps))"
  by (simp add: validate_index_def)

section \<open>Properties of the decimal numerals\<close>

lemma digits_props: "length digits = 10" "distinct digits"
  by (simp_all add: digits_def)

lemma digit_char_mem: "digit_char n \<in> set digits"
  unfolding digit_char_def by (rule nth_mem) (simp add: digits_props)

lemma digits_no_sep:
  "c \<in> set digits \<Longrightarrow> c \<noteq> CHR ''-'' \<and> c \<noteq> CHR '' '' \<and> c \<noteq> CHR '':'' \<and> c \<noteq> CHR ''+''"
  by (auto simp: digits_def)

lemma digit_char_not_sep:
  "digit_char n \<noteq> CHR ''-''" "digit_char n \<noteq> CHR '' ''" "digit_char n \<noteq> CHR '':''"
  "digit_char n \<noteq> CHR ''+''"
  using digits_no_sep [OF digit_char_mem [of n]] by simp_all

lemma digit_val_digit_char: "digit_val (digit_char n) = Some (n mod 10)"
proof -
  have "map_of (zip digits [0..<10]) (digits ! (n mod 10)) = Some ([0..<10] ! (n mod 10))"
    by (rule map_of_zip_nth) (simp_all add: digits_props)
  then show ?thesis
    by (simp add: digit_val_def digit_char_def)
qed

lemma digit_char_mod: "digit_char (n mod 10) = digit_char n"
  by (simp add: digit_char_def)

lemma digit_char_eq_iff: "digit_char a = digit_char b \<longleftrightarrow> a mod 10 = b mod 10"
proof
  assume "digit_char a = digit_char b"
  then have "digit_val (digit_char a) = digit_val (digit_char b)"
    by simp
  then show "a mod 10 = b mod 10"
    by (simp add: digit_val_digit_char)
next
  assume "a mod 10 = b mod 10"
  then show "digit_char a = digit_char b"
    by (simp add: digit_char_def)
qed

lemma digits_val_snoc:
  "digits_val acc (xs @ [c]) =
     (case digits_val acc xs of
        None \<Rightarrow> None
      | Some a \<Rightarrow> (case digit_val c of None \<Rightarrow> None | Some d \<Rightarrow> Some (10 * a + d)))"
  by (induction xs arbitrary: acc) (auto split: option.splits)

lemma digits_val_str_nat: "digits_val 0 (str_nat n) = Some n"
proof (induction n rule: str_nat.induct)
  case (1 n)
  show ?case
  proof (cases "n < 10")
    case True
    then show ?thesis
      by (simp add: str_nat.simps [of n] digit_val_digit_char)
  next
    case False
    with "1" have "digits_val 0 (str_nat (n div 10)) = Some (n div 10)"
      by simp
    with False show ?thesis
      by (simp add: str_nat.simps [of n] digits_val_snoc digit_val_digit_char)
  qed
qed

lemma str_nat_digits: "set (str_nat n) \<subseteq> set digits"
proof (induction n rule: str_nat.induct)
  case (1 n)
  then show ?case
    by (cases "n < 10") (auto simp: str_nat.simps [of n] digit_char_mem)
qed

lemma str_nat_no_sep:
  "CHR ''-'' \<notin> set (str_nat n)" "CHR '' '' \<notin> set (str_nat n)"
  using str_nat_digits [of n] digits_no_sep by blast+

lemma str_nat_nonempty: "str_nat n \<noteq> []"
  by (cases "n < 10") (simp_all add: str_nat.simps [of n])

lemma hd_str_nat: "hd (str_nat n) \<in> set digits"
  using str_nat_digits [of n] str_nat_nonempty [of n] by (cases "str_nat n") auto

lemma py_int_str_nat: "py_int (str_nat n) = Inr (int n)"
proof -
  have "hd (str_nat n) \<noteq> CHR ''-''" "hd (str_nat n) \<noteq> CHR ''+''"
    using digits_no_sep [OF hd_str_nat [of n]] by simp_all
  then show ?thesis
    by (simp add: py_int_def digits_val_str_nat str_nat_nonempty)
qed

lemma str_nat_four:
  assumes "1000 \<le> n" "n < 10000"
  shows "str_nat n =
    [digit_char (n div 1000), digit_char (n div 100), digit_char (n div 10), digit_char n]"
proof -
  have a: "\<not> n < 10" "\<not> n div 10 < 10" "\<not> n div 100 < 10" "n div 1000 < 10"
    using assms by auto
  have d: "n div 10 div 10 = n div 100" "n div 100 div 10 = n div 1000"
    by (simp_all add: div_mult2_eq [symmetric])
  have "str_nat (n div 1000) = [digit_char (n div 1000)]"
    using a by (simp add: str_nat.simps [of "n div 1000"])
  then have "str_nat (n div 100) = [digit_char (n div 1000), digit_char (n div 100)]"
    using a by (simp add: str_nat.simps [of "n div 100"] d digit_char_mod)
  then have "str_nat (n div 10) =
      [digit_char (n div 1000), digit_char (n div 100), digit_char (n div 10)]"
    using a by (simp add: str_nat.simps [of "n div 10"] d digit_char_mod)
  then show ?thesis
    using a by (simp add: str_nat.simps [of n] digit_char_mod)
qed

lemma two_digits_val:
  "n < 100 \<Longrightarrow> digits_val 0 (two_digits n) = Some n"
  by (simp add: two_digits_def digit_val_digit_char)

lemma four_digits_val:
  assumes "n < 10000"
  shows "digits_val 0
     [digit_char (n div 1000), digit_char (n div 100), digit_char (n div 10), digit_char n] = Some n"
proof -
  have d: "n div 10 div 10 = n div 100" "n div 100 div 10 = n div 1000"
    by (simp_all add: div_mult2_eq [symmetric])
  have s1: "10 * (n div 10) + n mod 10 = n"
    by simp
  have s2: "10 * (n div 100) + n div 10 mod 10 = n div 10"
    using div_mult_mod_eq [of "n div 10" 10] by (simp add: d)
  have s3: "10 * (n div 1000) + n div 100 mod 10 = n div 100"
    using div_mult_mod_eq [of "n div 100" 10] by (simp add: d)
  have s4: "n div 1000 mod 10 = n div 1000"
    using assms by simp
  show ?thesis
    by (simp add: digit_val_digit_char s1 s2 s3 s4)
qed

lemma two_digits_eq_iff:
  assumes "a < 100" "b < 100"
  shows "two_digits a = two_digits b \<longleftrightarrow> a = b"
proof
  assume "two_digits a = two_digits b"
  then have "digits_val 0 (two_digits a) = digits_val 0 (two_digits b)"
    by simp
  with assms show "a = b"
    by (simp add: two_digits_val)
qed simp

lemma two_digits_no_sep:
  "CHR ''-'' \<notin> set (two_digits n)" "CHR '' '' \<notin> set (two_digits n)"
  by (simp_all add: two_digits_def digit_char_not_sep [symmetric])

section \<open>Properties of the string operations and of parsing\<close>

lemma split_on_nonempty: "split_on c s \<noteq> []"
  by (induction s) (auto split: list.splits)

lemma split_on_none: "c \<notin> set xs \<Longrightarrow> split_on c xs = [xs]"
  by (induction xs) auto

lemma split_on_head: "c \<notin> set xs \<Longrightarrow> split_on c (xs @ c # ys) = xs # split_on c ys"
  by (induction xs) auto

lemma item_split_on_first:
  "c \<notin> set xs \<Longrightarrow> item (split_on c (xs @ c # ys)) 0 = Inr xs"
  by (simp add: split_on_head item_def)

lemma split_once_first:
  assumes "c \<notin> set xs"
  shows "split_once c (xs @ c # ys) = [xs, ys]"
proof -
  have "takeWhile (\<lambda>x. x \<noteq> c) (xs @ c # ys) = xs"
    using assms by (auto simp: takeWhile_tail)
  moreover have "dropWhile (\<lambda>x. x \<noteq> c) (xs @ c # ys) = c # ys"
    using assms by (auto simp: dropWhile_append3)
  ultimately show ?thesis
    by (simp add: split_once_def)
qed

lemma two_digits_consts: "''02'' = two_digits 2" "''29'' = two_digits 29"
  by (simp_all add: two_digits_def digit_char_def digits_def)

lemma month_day_text:
  assumes "m < 100" "d < 100"
  shows "two_digits m @ CHR ''-'' # two_digits d = ''02-29'' \<longleftrightarrow> m = 2 \<and> d = 29"
proof -
  have "two_digits m @ CHR ''-'' # two_digits d = ''02-29'' \<longleftrightarrow>
      two_digits m = ''02'' \<and> two_digits d = ''29''"
    by (auto simp: two_digits_def)
  also have "\<dots> \<longleftrightarrow> m = 2 \<and> d = 29"
    unfolding two_digits_consts using assms by (simp add: two_digits_eq_iff)
  finally show ?thesis .
qed

lemma strftime_split:
  "strftime t =
     (two_digits (month t) @ CHR ''-'' # two_digits (day t)) @ CHR '' '' #
     (two_digits (hour t) @ CHR '':'' # two_digits (minute t) @ CHR '':'' # two_digits (second t))"
  by (simp add: strftime_def)

lemma feb29_nonleap_built:
  assumes "month t < 100" "day t < 100"
  shows "feb29_nonleap (str_nat y @ ''-'' @ strftime t) =
    Inr (is_feb29 t \<and> \<not> isleap (int y))"
proof -
  define md where "md = two_digits (month t) @ CHR ''-'' # two_digits (day t)"
  define tod where "tod =
    two_digits (hour t) @ CHR '':'' # two_digits (minute t) @ CHR '':'' # two_digits (second t)"
  define date where "date = str_nat y @ CHR ''-'' # md"
  have x: "str_nat y @ ''-'' @ strftime t = date @ CHR '' '' # tod"
    by (simp add: strftime_split date_def md_def tod_def)
  have nosp: "CHR '' '' \<notin> set date"
    by (simp add: date_def md_def str_nat_no_sep two_digits_no_sep)
  have first: "item (split_on CHR '' '' (date @ CHR '' '' # tod)) 0 = Inr date"
    using nosp by (rule item_split_on_first)
  have once: "item (split_once CHR ''-'' date) (Suc 0) = Inr md"
    unfolding date_def by (simp add: split_once_first str_nat_no_sep item_def)
  have yr: "item (split_on CHR ''-'' date) 0 = Inr (str_nat y)"
    unfolding date_def by (rule item_split_on_first) (rule str_nat_no_sep)
  have md29: "md = ''02-29'' \<longleftrightarrow> is_feb29 t"
    unfolding md_def is_feb29_def using assms by (rule month_day_text)
  show ?thesis
    unfolding x feb29_nonleap_def first
    by (simp add: once yr md29 py_int_str_nat)
qed

lemma two_digits_val':
  "n < 100 \<Longrightarrow> digits_val 0 [digit_char (n div 10), digit_char n] = Some n"
  using two_digits_val [of n] by (simp add: two_digits_def)

lemma strptime_built:
  assumes y: "1000 \<le> y" "y < 10000"
    and f: "month t < 100" "day t < 100" "hour t < 100" "minute t < 100" "second t < 100"
  shows "strptime (str_nat y @ ''-'' @ strftime t) = Some (rekey (int y) t)"
proof -
  have "strptime (str_nat y @ ''-'' @ strftime t) =
      Some \<lparr>year = int y, month = month t, day = day t, hour = hour t, minute = minute t,
            second = second t, nanosecond = 0\<rparr>"
    unfolding str_nat_four [OF y] strftime_def two_digits_def strptime_def field_val_def
    using f y by (simp add: four_digits_val two_digits_val' del: digits_val.simps)
  then show ?thesis
    by (simp add: rekey_def)
qed

lemma days_in_month_le: "days_in_month y m \<le> 31"
  by (simp add: days_in_month_def)

lemma valid_in_bounds:
  assumes "valid_ts t" "1678 \<le> year t" "year t \<le> 2261"
  shows "in_bounds t"
proof -
  have "day t \<le> 31"
    using assms(1) days_in_month_le [of "year t" "month t"] by (simp add: valid_ts_def)
  with assms show ?thesis
    unfolding in_bounds_def ts_key_def ts_min_def ts_max_def valid_ts_def
    by simp
qed

lemma to_datetime_format_built:
  assumes "valid_ts (rekey (int y) t)" "1678 \<le> y" "y \<le> 2261"
  shows "to_datetime_format (str_nat y @ ''-'' @ strftime t) = Inr (rekey (int y) t)"
proof -
  have v: "valid_ts (rekey (int y) t)" by fact
  then have f: "month t < 100" "day t < 100" "hour t < 100" "minute t < 100" "second t < 100"
    using days_in_month_le [of "int y" "month t"] by (simp_all add: valid_ts_def rekey_def)
  have p: "strptime (str_nat y @ ''-'' @ strftime t) = Some (rekey (int y) t)"
    using assms f by (intro strptime_built) simp_all
  have "in_bounds (rekey (int y) t)"
    using v assms by (intro valid_in_bounds) (simp_all add: rekey_def)
  with v p show ?thesis
    by (simp add: to_datetime_format_def)
qed

section \<open>The flattener on yearly tables\<close>

lemma for_each_pure: "for_each (\<lambda>x. Inr (g x)) xs = Inr (map g xs)"
  by (induction xs) auto

lemma for_each_map_ok:
  "(\<And>x. x \<in> set xs \<Longrightarrow> f (h x) = Inr (g x)) \<Longrightarrow> for_each f (map h xs) = Inr (map g xs)"
  by (induction xs) auto

lemma select_map: "select (map f xs) (map p xs) = map f (filter p xs)"
  by (induction xs) (auto simp: select_def)

lemma dropna_entries:
  "dropna \<lparr>s_index = DatetimeIndex (map k xs), s_vals = map v xs\<rparr> =
     series_of_entries (map (\<lambda>x. (k x, v x)) (filter (\<lambda>x. v x \<noteq> NaN) xs))"
proof -
  have m: "map (\<lambda>c. c \<noteq> NaN) (map v xs) = map (\<lambda>x. v x \<noteq> NaN) xs"
    by simp
  show ?thesis
    unfolding dropna_def Let_def m
    by (simp add: select_map series_of_entries_def comp_def)
qed

lemma cells_map:
  "map h (cells_of rows ycols) =
     concat (map (\<lambda>c. map (\<lambda>e. h (fst c, fst e, snd e)) (zip rows (snd c))) ycols)"
  by (simp add: cells_of_def map_concat comp_def)

lemma cells_rows:
  assumes "list_all (year_column (length rows)) ycols"
  shows "concat (map (\<lambda>c. map (\<lambda>t. F (fst c) t) rows) ycols) =
     map (\<lambda>x. F (fst x) (fst (snd x))) (cells_of rows ycols)"
proof -
  have "map (\<lambda>t. F (fst c) t) rows = map (\<lambda>e. F (fst c) (fst e)) (zip rows (snd c))"
    if "c \<in> set ycols" for c
  proof -
    from that assms have "length (snd c) = length rows"
      by (simp add: list_all_iff year_column_def)
    then have "map fst (zip rows (snd c)) = rows"
      by simp
    then have "map (\<lambda>t. F (fst c) t) rows = map (\<lambda>t. F (fst c) t) (map fst (zip rows (snd c)))"
      by simp
    then show ?thesis
      by (simp add: comp_def)
  qed
  then show ?thesis
    unfolding cells_map by (auto intro!: arg_cong [where f = concat])
qed

lemma cells_vals:
  assumes "list_all (year_column (length rows)) ycols"
  shows "concat (map snd ycols) = map (\<lambda>x. snd (snd x)) (cells_of rows ycols)"
proof -
  have "snd c = map (\<lambda>e. snd e) (zip rows (snd c))" if "c \<in> set ycols" for c
  proof -
    from that assms have "length (snd c) = length rows"
      by (simp add: list_all_iff year_column_def)
    then have "map snd (zip rows (snd c)) = snd c"
      by simp
    then show ?thesis
      by simp
  qed
  then show ?thesis
    unfolding cells_map by (auto intro!: arg_cong [where f = concat])
qed

lemma cells_mem:
  assumes "x \<in> set (cells_of rows ycols)"
  shows "fst (snd x) \<in> set rows \<and> (\<exists>c \<in> set ycols. fst c = fst x)"
proof -
  from assms obtain c e where ce: "c \<in> set ycols" "e \<in> set (zip rows (snd c))"
    "x = (fst c, fst e, snd e)"
    by (auto simp: cells_of_def)
  from ce(2) have "(fst e, snd e) \<in> set (zip rows (snd c))"
    by simp
  then have "fst e \<in> set rows"
    by (rule set_zip_leftD)
  with ce show ?thesis
    by auto
qed

lemma cells_nonempty:
  assumes "list_all (year_column (length rows)) ycols" "rows \<noteq> []" "ycols \<noteq> []"
  shows "cells_of rows ycols \<noteq> []"
proof -
  from assms obtain c cs where c: "ycols = c # cs"
    by (cases ycols) auto
  with assms have "length (snd c) = length rows"
    by (simp add: year_column_def)
  with assms(2) have "zip rows (snd c) \<noteq> []"
    by (cases rows; cases "snd c") auto
  with c show ?thesis
    by (simp add: cells_of_def)
qed

lemma valid_rekey:
  assumes "valid_ts t" "\<not> (is_feb29 t \<and> \<not> isleap y)"
  shows "valid_ts (rekey y t)"
  using assms
  by (auto simp: valid_ts_def rekey_def is_feb29_def days_in_month_def split: if_splits)

lemma py_str_year: "0 \<le> y \<Longrightarrow> py_str (LInt y) = str_nat (nat y)"
  by (simp add: py_str_int_def)

lemma get_data_series_yearly:
  assumes rows: "list_all valid_ts rows"
    and cols: "list_all (year_column (length rows)) ycols"
    and ne: "rows \<noteq> []" "ycols \<noteq> []"
  shows "get_data_series (yearly_table rows ycols) =
    Inr (series_of_entries (flatten_spec rows ycols))"
proof -
  define cs where "cs = cells_of rows ycols"
  define sf where "sf = (\<lambda>x :: int \<times> ts \<times> cell. str_nat (nat (fst x)) @ ''-'' @ strftime (fst (snd x)))"
  have yr: "1678 \<le> fst x \<and> fst x \<le> 2261" and row: "valid_ts (fst (snd x))" if "x \<in> set cs" for x
  proof -
    from that cells_mem [of x rows ycols] obtain c
      where "fst (snd x) \<in> set rows" "c \<in> set ycols" "fst c = fst x"
      unfolding cs_def by blast
    with rows cols show "1678 \<le> fst x \<and> fst x \<le> 2261" "valid_ts (fst (snd x))"
      by (auto simp: list_all_iff year_column_def)
  qed
  have strs: "for_each
        (\<lambda>col. case df_index (yearly_table rows ycols) of
                  Index _ \<Rightarrow>
                    Inl (AttributeError
                      (py_quote ''Index'' @ '' object has no attribute '' @ py_quote ''strftime''))
                | DatetimeIndex stamps \<Rightarrow>
                    Inr (map (\<lambda>t. py_str (fst col) @ ''-'' @ strftime t) stamps))
        (df_columns (yearly_table rows ycols)) =
      Inr (map (\<lambda>c. map (\<lambda>t. str_nat (nat (fst c)) @ ''-'' @ strftime t) rows) ycols)"
  proof -
    have "py_str (LInt (fst c)) = str_nat (nat (fst c))" if "c \<in> set ycols" for c
      using that cols by (intro py_str_year) (auto simp: list_all_iff year_column_def)
    then have "map (\<lambda>c. map (\<lambda>t. py_str (LInt (fst c)) @ ''-'' @ strftime t) rows) ycols =
        map (\<lambda>c. map (\<lambda>t. str_nat (nat (fst c)) @ ''-'' @ strftime t) rows) ycols"
      by simp
    then show ?thesis
      by (simp add: yearly_table_def for_each_pure comp_def)
  qed
  have idx: "concat (map (\<lambda>c. map (\<lambda>t. str_nat (nat (fst c)) @ ''-'' @ strftime t) rows) ycols) =
      map sf cs"
    unfolding cs_def sf_def by (rule cells_rows [OF cols])
  have idx_ne: "map sf cs \<noteq> []"
    using cells_nonempty [OF cols ne] by (simp add: cs_def)
  have flags: "for_each feb29_nonleap (map sf cs) = Inr (map discarded cs)"
  proof (rule for_each_map_ok)
    fix x assume x: "x \<in> set cs"
    from row [OF x] have "month (fst (snd x)) < 100" "day (fst (snd x)) < 100"
      using days_in_month_le [of "year (fst (snd x))" "month (fst (snd x))"]
      by (simp_all add: valid_ts_def)
    from feb29_nonleap_built [OF this, of "nat (fst x)"] yr [OF x]
    show "feb29_nonleap (sf x) = Inr (discarded x)"
      by (simp add: sf_def discarded_def)
  qed
  have mask: "map Not (map discarded cs) = map (\<lambda>x. \<not> discarded x) cs"
    by simp
  have stamps: "for_each to_datetime_format (map sf (filter (\<lambda>x. \<not> discarded x) cs)) =
      Inr (map (\<lambda>x. rekey (fst x) (fst (snd x))) (filter (\<lambda>x. \<not> discarded x) cs))"
  proof (rule for_each_map_ok)
    fix x assume "x \<in> set (filter (\<lambda>x. \<not> discarded x) cs)"
    then have x: "x \<in> set cs" and keep: "\<not> discarded x"
      by simp_all
    from keep have "valid_ts (rekey (fst x) (fst (snd x)))"
      by (intro valid_rekey row [OF x]) (simp add: discarded_def)
    with yr [OF x] have "valid_ts (rekey (int (nat (fst x))) (fst (snd x)))"
      by simp
    moreover have "1678 \<le> nat (fst x)" "nat (fst x) \<le> 2261" "int (nat (fst x)) = fst x"
      using yr [OF x] by linarith+
    ultimately show "to_datetime_format (sf x) = Inr (rekey (fst x) (fst (snd x)))"
      using to_datetime_format_built [of "nat (fst x)" "fst (snd x)"] by (simp add: sf_def)
  qed
  have vals: "concat (map snd (df_columns (yearly_table rows ycols))) = map (\<lambda>x. snd (snd x)) cs"
    using cells_vals [OF cols] by (simp add: yearly_table_def comp_def cs_def)
  show ?thesis
    unfolding get_data_series_def strs sum.case Let_def idx vals
    using idx_ne
    by (simp only: flags stamps mask select_map sum.case if_False dropna_entries
        flatten_spec_def cs_def [symmetric])
qed

section \<open>The regrouper on whole years\<close>

lemma zip_concat_map:
  "(\<And>c. c \<in> set xs \<Longrightarrow> length (f c) = length (g c)) \<Longrightarrow>
   zip (concat (map f xs)) (concat (map g xs)) = concat (map (\<lambda>c. zip (f c) (g c)) xs)"
  by (induction xs) simp_all

lemma filter_concat_key:
  assumes "distinct (map k xs)" "c \<in> set xs"
    and "\<And>d e. d \<in> set xs \<Longrightarrow> e \<in> set (chunk d) \<Longrightarrow> key e = k d"
  shows "filter (\<lambda>e. key e = k c) (concat (map chunk xs)) = chunk c"
  using assms
proof (induction xs)
  case Nil
  then show ?case by simp
next
  case (Cons d xs)
  have all: "filter (\<lambda>e. key e = k d) (chunk d) = chunk d"
    using Cons.prems(3) [of d] by (simp add: filter_id_conv)
  show ?case
  proof (cases "c = d")
    case True
    have "filter (\<lambda>e. key e = k d) (concat (map chunk xs)) = []"
    proof -
      have "key e \<noteq> k d" if "e \<in> set (concat (map chunk xs))" for e
      proof -
        from that obtain d' where d': "d' \<in> set xs" "e \<in> set (chunk d')"
          by auto
        then have "key e = k d'"
          using Cons.prems(3) by simp
        moreover have "k d \<notin> k ` set xs"
          using Cons.prems(1) by simp
        then have "k d' \<noteq> k d"
          using d'(1) by (metis imageI)
        ultimately show ?thesis by simp
      qed
      then show ?thesis
        by (simp add: filter_empty_conv)
    qed
    with True all show ?thesis by simp
  next
    case False
    with Cons.prems have c: "c \<in> set xs" and kd: "k d \<noteq> k c"
      by auto
    have "filter (\<lambda>e. key e = k c) (chunk d) = []"
      using Cons.prems(3) [of d] kd by (auto simp: filter_empty_conv)
    moreover have "filter (\<lambda>e. key e = k c) (concat (map chunk xs)) = chunk c"
      using Cons.prems c by (intro Cons.IH) auto
    ultimately show ?thesis by simp
  qed
qed

lemma fold_union2_same:
  "(\<And>h. h \<in> set gs \<Longrightarrow> ix h = R) \<Longrightarrow> fold (\<lambda>h acc. union2 acc (ix h)) gs R = R"
  by (induction gs) (simp_all add: union2_def)

lemma zip_map_same: "zip (map f xs) (map g xs) = map (\<lambda>x. (f x, g x)) xs"
  by (induction xs) simp_all

lemma for_each_ok:
  "(\<And>x. x \<in> set xs \<Longrightarrow> f x = Inr (g x)) \<Longrightarrow> for_each f xs = Inr (map g xs)"
  by (induction xs) auto

lemma strftime_rekey: "strftime (rekey y t) = strftime t"
  by (simp add: strftime_def rekey_def)

lemma rekey_rekey: "rekey y (rekey z t) = rekey y t"
  by (simp add: rekey_def)

lemma year_rekey: "year (rekey y t) = y"
  by (simp add: rekey_def)

lemma str_nat_2000: "str_nat 2000 = ''2000''"
  by code_simp

lemma valid_common_year:
  assumes "valid_ts (rekey 2001 t)"
  shows "valid_ts (rekey y t)" "\<not> is_feb29 (rekey y t)"
  using assms
  by (auto simp: valid_ts_def rekey_def is_feb29_def days_in_month_def isleap_def split: if_splits)

lemma rekey_2000:
  assumes "valid_ts (rekey 2001 t)"
  shows "to_datetime_format (''2000-'' @ strftime (rekey y t)) = Inr (rekey 2000 t)"
proof -
  have "valid_ts (rekey (int 2000) t)"
    using valid_common_year(1) [OF assms, of 2000] by simp
  from to_datetime_format_built [OF this] show ?thesis
    by (simp add: str_nat_2000 strftime_rekey)
qed

lemma ts_key_rekey: "ts_key (rekey y t) = ts_key (rekey 2001 t) + (y - 2001) * 32140800000000000"
  by (simp add: ts_key_def rekey_def algebra_simps)

lemma sorted_rekey:
  assumes "sorted (map (\<lambda>t. ts_key (rekey 2001 t)) tpl)"
  shows "sorted (map (\<lambda>t. ts_key (rekey y t)) tpl)"
proof -
  have "ts_key (rekey y a) \<le> ts_key (rekey y b) \<longleftrightarrow>
      ts_key (rekey 2001 a) \<le> ts_key (rekey 2001 b)" for a b
    using ts_key_rekey [of y a] ts_key_rekey [of y b] by linarith
  with assms show ?thesis
    by (simp only: sorted_map)
qed

lemma concat_axis1_aligned:
  assumes "ycols \<noteq> []" "\<And>c. c \<in> set ycols \<Longrightarrow> length (snd c) = length R"
  shows "concat_axis1 (map (\<lambda>c. (fst c, zip R (snd c))) ycols) = Inr (yearly_table R ycols)"
proof -
  define grs where "grs = map (\<lambda>c. (fst c, zip R (snd c))) ycols"
  have ix: "map fst (snd h) = R" if "h \<in> set grs" for h
    using that assms(2) by (auto simp: grs_def)
  obtain g gs where g: "grs = g # gs"
    using assms(1) by (cases grs) (auto simp: grs_def)
  have rows: "fold (\<lambda>h acc. union2 acc (map fst (snd h))) gs (map fst (snd g)) = R"
  proof -
    have "map fst (snd g) = R"
      using ix [of g] g by simp
    moreover have "fold (\<lambda>h acc. union2 acc (map fst (snd h))) gs R = R"
      using ix g by (intro fold_union2_same) simp
    ultimately show ?thesis by simp
  qed
  have cols: "for_each (\<lambda>h. reindex R (snd h)) grs = Inr (map snd ycols)"
    unfolding grs_def
  proof (rule for_each_map_ok)
    fix c assume "c \<in> set ycols"
    then have "length (snd c) = length R"
      by (rule assms(2))
    then show "reindex R (snd (fst c, zip R (snd c))) = Inr (snd c)"
      by (simp add: reindex_def)
  qed
  have "concat_axis1 grs = Inr \<lparr>df_index = DatetimeIndex R,
      df_columns = zip (map (LInt \<circ> fst) grs) (map snd ycols)\<rparr>"
    unfolding concat_axis1_def g list.case Let_def rows
    using cols by (simp add: g)
  moreover have "zip (map (LInt \<circ> fst) grs) (map snd ycols) = map (\<lambda>c. (LInt (fst c), snd c)) ycols"
    by (simp add: grs_def zip_map_same comp_def)
  ultimately show ?thesis
    by (simp add: grs_def yearly_table_def)
qed

lemma in_bounds_year_end:
  assumes "1677 \<le> y" "y \<le> 2261"
  shows "in_bounds (year_end y)"
  using assms unfolding in_bounds_def ts_key_def ts_min_def ts_max_def year_end_def
  by simp

lemma rekey_key_bounds:
  assumes "valid_ts (rekey 2001 t)"
  shows "y * 32140800000000000 \<le> ts_key (rekey y t)"
    and "ts_key (rekey y t) + 1000000000 \<le> (y + 1) * 32140800000000000"
proof -
  have "day t \<le> 31"
    using assms days_in_month_le [of 2001 "month t"] by (simp add: valid_ts_def rekey_def)
  with assms show "y * 32140800000000000 \<le> ts_key (rekey y t)"
    and "ts_key (rekey y t) + 1000000000 \<le> (y + 1) * 32140800000000000"
    unfolding ts_key_def rekey_def valid_ts_def by simp_all
qed

lemma end_of_year_key:
  "ts_key (end_of_day (year_end y)) = (y + 1) * 32140800000000000 - 1"
  by (simp add: ts_key_def end_of_day_def year_end_def)

lemma year_bins_whole_years:
  assumes a: "valid_ts (rekey 2001 a)" and b: "valid_ts (rekey 2001 b)"
    and y: "1678 \<le> y" "y \<le> z" "z \<le> 2260"
  shows "year_bins (rekey y a) (rekey z b) = Inr [y..z]"
proof -
  define L where "L = (if month b = 12 \<and> day b = 31 then z + 1 else z)"
  have L: "L = z \<or> L = z + 1"
    by (simp add: L_def)
  have first: "in_bounds (year_end (y - 1))"
    using y by (intro in_bounds_year_end) simp_all
  have last: "in_bounds (year_end L)"
    using y L by (intro in_bounds_year_end) auto
  have kept: "(if ts_key (rekey z b) < ts_key (end_of_day (year_end (L - 1)))
        then butlast [y - 1..L] else [y - 1..L]) = [y - 1..z]"
  proof (cases "L = z")
    case True
    have "\<not> ts_key (rekey z b) < ts_key (end_of_day (year_end (z - 1)))"
      using rekey_key_bounds(1) [OF b, of z] end_of_year_key [of "z - 1"] by simp
    with True show ?thesis
      by simp
  next
    case False
    with L have Lz: "L = z + 1"
      by simp
    have "ts_key (rekey z b) < ts_key (end_of_day (year_end z))"
      using rekey_key_bounds(2) [OF b, of z] end_of_year_key [of z] by simp
    moreover have "[y - 1..z + 1] = [y - 1..z] @ [z + 1]"
      using y(2) upto_rec2 [of "y - 1" "z + 1"] by simp
    ultimately show ?thesis
      by (simp add: Lz)
  qed
  have labels: "tl [y - 1..z] = [y..z]"
    using y(2) upto_rec1 [of "y - 1" z] by simp
  have fields: "year (rekey y a) = y" "year (rekey z b) = z" "month (rekey z b) = month b"
    "day (rekey z b) = day b" "year (year_end n) = n" for n
    by (simp_all add: rekey_def year_end_def)
  have "year_bins (rekey y a) (rekey z b) =
      (if in_bounds (year_end (y - 1)) \<and> in_bounds (year_end L) then
         Inr (tl (if ts_key (rekey z b) < ts_key (end_of_day (year_end (L - 1)))
                  then butlast [y - 1..L] else [y - 1..L]))
       else
         Inl (OutOfBoundsDatetime
           (''Out of bounds nanosecond timestamp: '' @
            py_str_int (year (if in_bounds (year_end (y - 1)) then year_end L
                              else year_end (y - 1))) @
            ''-12-31 00:00:00'')))"
    unfolding year_bins_def Let_def fields L_def ..
  then show ?thesis
    by (simp only: first last kept labels simp_thms if_True)
qed

lemma hd_concat_map:
  "f c \<noteq> [] \<Longrightarrow> hd (concat (map f (c # cs))) = hd (f c)"
  by simp

lemma last_concat_map:
  "f c \<noteq> [] \<Longrightarrow> last (concat (map f (cs @ [c]))) = last (f c)"
  by simp

lemma sorted_concat_map:
  assumes "sorted_wrt (\<lambda>a b. \<forall>x\<in>set (f a). \<forall>y\<in>set (f b). x \<le> y) ms"
    and "\<And>m. m \<in> set ms \<Longrightarrow> sorted (f m)"
  shows "sorted (concat (map f ms))"
  using assms by (induction ms) (auto simp: sorted_append)

lemma whole_years_sorted:
  assumes tpl: "list_all (\<lambda>t. valid_ts (rekey 2001 t)) tpl"
      "sorted (map (\<lambda>t. ts_key (rekey 2001 t)) tpl)"
    and cols: "sorted_wrt (\<lambda>a b. fst a < fst b) (ycols :: (int \<times> cell list) list)"
  shows "sorted (concat (map (\<lambda>c. map (\<lambda>t. ts_key (rekey (fst c) t)) tpl) ycols))"
proof (rule sorted_concat_map)
  have across: "\<forall>x\<in>set (map (\<lambda>t. ts_key (rekey (fst c) t)) tpl).
      \<forall>y\<in>set (map (\<lambda>t. ts_key (rekey (fst d) t)) tpl). x \<le> y"
    if "fst c < fst d" for c d :: "int \<times> cell list"
  proof (intro ballI)
    fix x y
    assume "x \<in> set (map (\<lambda>t. ts_key (rekey (fst c) t)) tpl)"
      and "y \<in> set (map (\<lambda>t. ts_key (rekey (fst d) t)) tpl)"
    then obtain t u where t: "t \<in> set tpl" "x = ts_key (rekey (fst c) t)"
      and u: "u \<in> set tpl" "y = ts_key (rekey (fst d) u)"
      by auto
    from t(1) u(1) tpl(1) have v: "valid_ts (rekey 2001 t)" "valid_ts (rekey 2001 u)"
      by (simp_all add: list_all_iff)
    from that have "(fst c + 1) * 32140800000000000 \<le> fst d * 32140800000000000"
      by simp
    with rekey_key_bounds(2) [OF v(1), of "fst c"] rekey_key_bounds(1) [OF v(2), of "fst d"]
    show "x \<le> y"
      unfolding t(2) u(2) by linarith
  qed
  show "sorted_wrt (\<lambda>c d. \<forall>x\<in>set (map (\<lambda>t. ts_key (rekey (fst c) t)) tpl).
      \<forall>y\<in>set (map (\<lambda>t. ts_key (rekey (fst d) t)) tpl). x \<le> y) ycols"
    by (rule sorted_wrt_mono_rel [OF _ cols]) (rule across)
  show "sorted (map (\<lambda>t. ts_key (rekey (fst c) t)) tpl)" for c :: "int \<times> cell list"
    by (rule sorted_rekey [OF tpl(2)])
qed

lemma groupby_year_whole_years:
  assumes tpl: "tpl \<noteq> []" "list_all (\<lambda>t. valid_ts (rekey 2001 t)) tpl"
      "sorted (map (\<lambda>t. ts_key (rekey 2001 t)) tpl)"
    and cols: "ycols \<noteq> []" "list_all (year_column (length tpl)) ycols"
      "map fst ycols = [y0..y0 + int (length ycols) - 1]"
      "y0 + int (length ycols) \<le> 2261"
  shows "groupby_year (series_of_years tpl ycols) =
    Inr (map (\<lambda>c. (fst c, zip (map (rekey (fst c)) tpl) (snd c))) ycols)"
proof -
  define chunk where "chunk = (\<lambda>c :: int \<times> cell list. zip (map (rekey (fst c)) tpl) (snd c))"
  define stamps where "stamps = concat (map (\<lambda>c. map (rekey (fst c)) tpl) ycols)"
  define E where "E = concat (map chunk ycols)"
  define z where "z = y0 + int (length ycols) - 1"
  have len: "length (snd c) = length tpl" if "c \<in> set ycols" for c
    using that cols(2) by (simp add: list_all_iff year_column_def)
  have entries: "zip stamps (concat (map snd ycols)) = E"
    unfolding stamps_def chunk_def E_def by (rule zip_concat_map) (simp add: len)
  have le: "y0 \<le> z"
    using cols(1) by (cases ycols) (auto simp: z_def)
  have dist: "distinct (map fst ycols)"
    unfolding cols(3) by simp
  have strict: "sorted_wrt (\<lambda>a b. fst a < fst b) ycols"
  proof -
    have "sorted_wrt (<) (map fst ycols)"
      unfolding cols(3) by (simp add: strict_sorted_iff)
    then show ?thesis
      by (simp add: sorted_wrt_map)
  qed
  have stamps_of: "map fst (chunk c) = map (rekey (fst c)) tpl" if "c \<in> set ycols" for c
    using len [OF that] by (simp add: chunk_def)
  have keys: "map (\<lambda>e. ts_key (fst e)) (chunk c) = map (\<lambda>t. ts_key (rekey (fst c) t)) tpl"
    if "c \<in> set ycols" for c
  proof -
    have "map (\<lambda>e. ts_key (fst e)) (chunk c) = map ts_key (map fst (chunk c))"
      by simp
    then show ?thesis
      unfolding stamps_of [OF that] by (simp add: comp_def)
  qed
  have "map (\<lambda>e. ts_key (fst e)) E =
      concat (map (\<lambda>c. map (\<lambda>e. ts_key (fst e)) (chunk c)) ycols)"
    by (simp add: E_def map_concat comp_def)
  also have "\<dots> = concat (map (\<lambda>c. map (\<lambda>t. ts_key (rekey (fst c) t)) tpl) ycols)"
    using keys by (simp cong: map_cong)
  finally have "sorted (map (\<lambda>e. ts_key (fst e)) E)"
    using whole_years_sorted [OF tpl(2,3) strict] by simp
  then have sorted_id: "sort_key (\<lambda>e. ts_key (fst e)) E = E"
    by (rule sort_key_id_if_sorted)
  have chunk_ne: "chunk c \<noteq> []" if "c \<in> set ycols" for c
    using len [OF that] tpl(1) by (cases tpl; cases "snd c") (auto simp: chunk_def)
  have stamp: "\<exists>t\<in>set tpl. fst e = rekey (fst c) t" if "c \<in> set ycols" "e \<in> set (chunk c)" for c e
  proof -
    from that(2) have "fst e \<in> set (map fst (chunk c))"
      by simp
    then show ?thesis
      unfolding stamps_of [OF that(1)] by auto
  qed
  obtain c cs where first: "ycols = c # cs"
    using cols(1) by (cases ycols) auto
  have "map fst ycols = y0 # [y0 + 1..z]"
    unfolding cols(3) using le upto_rec1 [of y0 z] by (simp add: z_def)
  with first have c: "c \<in> set ycols" "fst c = y0"
    by simp_all
  have "hd E = hd (chunk c)"
    unfolding E_def first using chunk_ne [OF c(1)] by (rule hd_concat_map)
  then have "hd E \<in> set (chunk c)"
    using chunk_ne [OF c(1)] by simp
  from stamp [OF c(1) this] obtain a where a: "a \<in> set tpl" "fst (hd E) = rekey y0 a"
    unfolding c(2) by blast
  obtain d where d: "d = last ycols" "ycols = butlast ycols @ [d]"
    using cols(1) by simp
  have "map fst ycols = [y0..z - 1] @ [z]"
    unfolding cols(3) using le upto_rec2 [of y0 z] by (simp add: z_def)
  then have "last (map fst ycols) = z"
    by simp
  then have dz: "d \<in> set ycols" "fst d = z"
    using cols(1) d(1) by (simp_all add: last_map)
  have "last E = last (chunk d)"
  proof -
    have "E = concat (map chunk (butlast ycols @ [d]))"
      unfolding E_def using d(2) by simp
    then show ?thesis
      using last_concat_map [of chunk d "butlast ycols"] chunk_ne [OF dz(1)] by simp
  qed
  then have "last E \<in> set (chunk d)"
    using chunk_ne [OF dz(1)] by simp
  from stamp [OF dz(1) this] obtain b where b: "b \<in> set tpl" "fst (last E) = rekey z b"
    unfolding dz(2) by blast
  have valid: "valid_ts (rekey 2001 a)" "valid_ts (rekey 2001 b)"
    using a(1) b(1) tpl(2) by (simp_all add: list_all_iff)
  have "1678 \<le> fst c"
    using c(1) cols(2) by (simp add: list_all_iff year_column_def)
  then have "1678 \<le> y0"
    by (simp add: c(2))
  moreover have "z \<le> 2260"
    using cols(4) by (simp add: z_def)
  ultimately have "year_bins (rekey y0 a) (rekey z b) = Inr [y0..z]"
    using le by (intro year_bins_whole_years [OF valid]) simp_all
  then have bins: "year_bins (fst (hd E)) (fst (last E)) = Inr (map fst ycols)"
    unfolding a(2) b(2) cols(3) by (simp add: z_def)
  have ne: "E \<noteq> []"
    unfolding E_def first using chunk_ne [OF c(1)] by simp
  have key: "year (fst e) = fst d" if "d \<in> set ycols" "e \<in> set (chunk d)" for d e
    using stamp [OF that] by (auto simp: year_rekey)
  have grp: "filter (\<lambda>e. year (fst e) = fst c) E = chunk c" if c: "c \<in> set ycols" for c
    unfolding E_def using dist c key by (rule filter_concat_key)
  have "groupby_year (series_of_years tpl ycols) =
      Inr (map (\<lambda>y. (y, filter (\<lambda>e. year (fst e) = y) E)) (map fst ycols))"
    unfolding groupby_year_def series_of_years_def
    using ne bins entries sorted_id by (simp add: stamps_def Let_def)
  also have "map (\<lambda>y. (y, filter (\<lambda>e. year (fst e) = y) E)) (map fst ycols) =
      map (\<lambda>c. (fst c, chunk c)) ycols"
    using grp by (simp add: comp_def)
  finally show ?thesis
    by (simp add: chunk_def)
qed

lemma group_yearly_df_whole_years:
  assumes tpl: "tpl \<noteq> []" "list_all (\<lambda>t. valid_ts (rekey 2001 t)) tpl"
      "sorted (map (\<lambda>t. ts_key (rekey 2001 t)) tpl)"
    and cols: "ycols \<noteq> []" "list_all (year_column (length tpl)) ycols"
      "map fst ycols = [y0..y0 + int (length ycols) - 1]"
      "y0 + int (length ycols) \<le> 2261"
  shows "group_yearly_df (series_of_years tpl ycols) =
    Inr (yearly_table (map (rekey 2000) tpl) ycols)"
proof -
  define R where "R = map (rekey 2000) tpl"
  define chunk where "chunk = (\<lambda>c :: int \<times> cell list. zip (map (rekey (fst c)) tpl) (snd c))"
  have len: "length (snd c) = length tpl" if "c \<in> set ycols" for c
    using that cols(2) by (simp add: list_all_iff year_column_def)
  have groups: "groupby_year (series_of_years tpl ycols) = Inr (map (\<lambda>c. (fst c, chunk c)) ycols)"
    unfolding chunk_def by (rule groupby_year_whole_years [OF tpl cols])
  have one: "(case for_each (\<lambda>e. to_datetime_format (''2000-'' @ strftime (fst e)))
                  (snd (fst c, chunk c)) of
          Inl e \<Rightarrow> Inl e
        | Inr stamps \<Rightarrow> Inr (fst (fst c, chunk c), zip stamps (map snd (snd (fst c, chunk c))))) =
      Inr (fst c, zip R (snd c))" if c: "c \<in> set ycols" for c
  proof -
    have "for_each (\<lambda>e. to_datetime_format (''2000-'' @ strftime (fst e))) (chunk c) =
        Inr (map (\<lambda>e. rekey 2000 (fst e)) (chunk c))"
    proof (rule for_each_ok)
      fix e assume "e \<in> set (chunk c)"
      then have "(fst e, snd e) \<in> set (zip (map (rekey (fst c)) tpl) (snd c))"
        by (simp add: chunk_def)
      then have "fst e \<in> set (map (rekey (fst c)) tpl)"
        by (rule set_zip_leftD)
      then obtain t where t: "t \<in> set tpl" "fst e = rekey (fst c) t"
        by auto
      from t(1) tpl(2) have "valid_ts (rekey 2001 t)"
        by (simp add: list_all_iff)
      from rekey_2000 [OF this, of "fst c"] t(2)
      show "to_datetime_format (''2000-'' @ strftime (fst e)) = Inr (rekey 2000 (fst e))"
        by (simp add: rekey_rekey)
    qed
    moreover have "map (\<lambda>e. rekey 2000 (fst e)) (chunk c) = R"
    proof -
      have "map (\<lambda>e. rekey 2000 (fst e)) (chunk c) = map (rekey 2000) (map fst (chunk c))"
        by simp
      also have "map fst (chunk c) = map (rekey (fst c)) tpl"
        using len [OF c] by (simp add: chunk_def)
      finally show ?thesis
        by (simp add: R_def comp_def rekey_rekey)
    qed
    moreover have "map snd (chunk c) = snd c"
      using len [OF c] by (simp add: chunk_def)
    ultimately show ?thesis
      by simp
  qed
  have rekeyed: "for_each
        (\<lambda>g. case for_each (\<lambda>e. to_datetime_format (''2000-'' @ strftime (fst e))) (snd g) of
               Inl e \<Rightarrow> Inl e
             | Inr stamps \<Rightarrow> Inr (fst g, zip stamps (map snd (snd g))))
        (map (\<lambda>c. (fst c, chunk c)) ycols) =
      Inr (map (\<lambda>c. (fst c, zip R (snd c))) ycols)"
    by (rule for_each_map_ok) (rule one)
  have "concat_axis1 (map (\<lambda>c. (fst c, zip R (snd c))) ycols) = Inr (yearly_table R ycols)"
    using cols(1) by (rule concat_axis1_aligned) (simp add: len R_def)
  then show ?thesis
    unfolding group_yearly_df_def groups sum.case rekeyed
    by (simp add: R_def)
qed

section \<open>The daily template\<close>

lemma daily_template_length: "length daily_template = 365"
  by code_simp

lemma daily_template_mem:
  assumes "t \<in> set daily_template"
  shows "\<exists>m d. t = midnight m d \<and> 1 \<le> m \<and> m \<le> 12 \<and> 1 \<le> d \<and> d \<le> days_in_month 2001 m"
  using assms by (fastforce simp: daily_template_def)

lemma daily_template_valid: "list_all (\<lambda>t. valid_ts (rekey 2001 t)) daily_template"
proof -
  have "valid_ts (rekey 2001 t)" if "t \<in> set daily_template" for t
  proof -
    from daily_template_mem [OF that] obtain m d
      where "t = midnight m d" "1 \<le> m" "m \<le> 12" "1 \<le> d" "d \<le> days_in_month 2001 m"
      by blast
    then show ?thesis
      by (simp add: valid_ts_def rekey_def midnight_def)
  qed
  then show ?thesis
    by (simp add: list_all_iff)
qed

lemma midnight_key:
  "ts_key (rekey 2001 (midnight m d)) =
     ((24012 + (int m - 1)) * 31 + (int d - 1)) * 86400000000000"
  by (simp add: ts_key_def rekey_def midnight_def)

lemma daily_template_sorted: "sorted (map (\<lambda>t. ts_key (rekey 2001 t)) daily_template)"
proof -
  define k where "k = (\<lambda>m d. ts_key (rekey 2001 (midnight m d)))"
  define f where "f = (\<lambda>m. map (k m) [1..<Suc (days_in_month 2001 m)])"
  have eq: "map (\<lambda>t. ts_key (rekey 2001 t)) daily_template = concat (map f [1..<13])"
    by (simp add: daily_template_def map_concat comp_def f_def k_def)
  have inner: "sorted (f m)" for m
    unfolding f_def sorted_map
    by (rule sorted_wrt_mono_rel [OF _ sorted_wrt_upt]) (simp add: k_def midnight_key)
  have across: "\<forall>x\<in>set (f a). \<forall>y\<in>set (f b). x \<le> y" if "a < b" for a b
  proof (intro ballI)
    fix x y assume "x \<in> set (f a)" "y \<in> set (f b)"
    then obtain d e where
      x: "x = k a d" "1 \<le> d" "d \<le> days_in_month 2001 a" and y: "y = k b e" "1 \<le> e"
      by (auto simp: f_def)
    have "d \<le> 31"
      using x(3) days_in_month_le [of 2001 a] by simp
    with x y that show "x \<le> y"
      by (simp add: k_def midnight_key)
  qed
  have "sorted_wrt (\<lambda>a b. \<forall>x\<in>set (f a). \<forall>y\<in>set (f b). x \<le> y) [1..<13]"
    by (rule sorted_wrt_mono_rel [OF _ sorted_wrt_upt]) (use across in blast)
  then have "sorted (concat (map f [1..<13]))"
    by (rule sorted_concat_map) (rule inner)
  then show ?thesis
    by (simp only: eq)
qed

section \<open>Leap-day law and round trip\<close>

lemma select_filter: "select xs (map p xs) = filter p xs"
  using select_map [of "\<lambda>x. x" xs p] by simp

lemma s_vals_dropna: "s_vals (dropna s) = filter (\<lambda>v. v \<noteq> NaN) (s_vals s)"
  by (simp add: dropna_def Let_def select_filter)

lemma select_all: "length xs = length ys \<Longrightarrow> select xs (map (\<lambda>_. True) ys) = xs"
  by (induction xs ys rule: list_induct2) (simp_all add: select_def)

lemma dropna_no_missing:
  assumes "NaN \<notin> set (s_vals s)" "index_len (s_index s) = length (s_vals s)"
  shows "dropna s = s"
proof -
  have keep: "map (\<lambda>v. v \<noteq> NaN) (s_vals s) = map (\<lambda>_. True) (s_vals s)"
    using assms(1) by (auto intro: map_cong)
  show ?thesis
    unfolding dropna_def Let_def keep
    using assms(2) by (cases s; cases "s_index s") (simp_all add: select_all index_len_def)
qed

lemma cells_of_map_rows:
  "cells_of (map f rows) ycols =
     map (\<lambda>x. (fst x, f (fst (snd x)), snd (snd x))) (cells_of rows ycols)"
  by (simp add: cells_of_def map_concat comp_def zip_map1 case_prod_beta)

lemma series_of_years_cells:
  assumes "list_all (year_column (length tpl)) ycols"
  shows "series_of_years tpl ycols =
    \<lparr>s_index = DatetimeIndex (map (\<lambda>x. rekey (fst x) (fst (snd x))) (cells_of tpl ycols)),
     s_vals = map (\<lambda>x. snd (snd x)) (cells_of tpl ycols)\<rparr>"
  unfolding series_of_years_def
  using cells_rows [OF assms, of rekey] cells_vals [OF assms] by simp

lemma flatten_spec_common_years:
  assumes "list_all (\<lambda>t. valid_ts (rekey 2001 t)) tpl"
  shows "flatten_spec (map (rekey 2000) tpl) ycols =
    map (\<lambda>x. (rekey (fst x) (fst (snd x)), snd (snd x)))
      (filter (\<lambda>x. snd (snd x) \<noteq> NaN) (cells_of tpl ycols))"
proof -
  have keep: "\<not> discarded (fst x, rekey 2000 (fst (snd x)), snd (snd x))"
    if "x \<in> set (cells_of tpl ycols)" for x
  proof -
    from cells_mem [OF that] assms have "valid_ts (rekey 2001 (fst (snd x)))"
      by (simp add: list_all_iff)
    from valid_common_year(2) [OF this, of 2000] show ?thesis
      by (simp add: discarded_def)
  qed
  have "filter (\<lambda>x. \<not> discarded x) (cells_of (map (rekey 2000) tpl) ycols) =
      cells_of (map (rekey 2000) tpl) ycols"
    unfolding cells_of_map_rows using keep by (simp add: filter_id_conv)
  then show ?thesis
    unfolding flatten_spec_def
    by (simp add: cells_of_map_rows filter_map comp_def rekey_rekey)
qed

lemma flatten_spec_kept:
  "list_all (\<lambda>e. \<not> (is_feb29 (fst e) \<and> \<not> isleap (year (fst e)))) (flatten_spec rows ycols)"
  by (auto simp: flatten_spec_def list_all_iff discarded_def is_feb29_def rekey_def)

text \<open>
  Claim C2. On every yearly table (valid row timestamps, year columns, at least one
  cell) \<^verbatim>\<open>get_data_series\<close> returns the flattening of the specification: every cell on
  the row of February 29 in a column of a non-leap year is discarded. No timestamp of
  the output is a February 29 of a non-leap year, and the output has exactly as many
  entries as there are cells that are neither such a cell nor missing.
\<close>

theorem get_data_series_discards_feb29:
  assumes "list_all valid_ts rows" "list_all (year_column (length rows)) ycols"
    "rows \<noteq> []" "ycols \<noteq> []"
  shows "\<exists>out stamps.
      get_data_series (yearly_table rows ycols) = Inr out \<and>
      out = series_of_entries (flatten_spec rows ycols) \<and>
      s_index out = DatetimeIndex stamps \<and>
      list_all (\<lambda>t. \<not> (is_feb29 t \<and> \<not> isleap (year t))) stamps \<and>
      length stamps =
        length (filter (\<lambda>x. \<not> discarded x \<and> snd (snd x) \<noteq> NaN) (cells_of rows ycols))"
proof -
  have "list_all (\<lambda>t. \<not> (is_feb29 t \<and> \<not> isleap (year t))) (map fst (flatten_spec rows ycols))"
    using flatten_spec_kept [of rows ycols] by (simp add: list_all_iff)
  moreover have "length (map fst (flatten_spec rows ycols)) =
      length (filter (\<lambda>x. \<not> discarded x \<and> snd (snd x) \<noteq> NaN) (cells_of rows ycols))"
    by (simp add: flatten_spec_def conj_commute)
  ultimately show ?thesis
    using get_data_series_yearly [OF assms] by (simp add: series_of_entries_def)
qed

lemma round_trip_whole_years:
  assumes tpl: "tpl \<noteq> []" "list_all (\<lambda>t. valid_ts (rekey 2001 t)) tpl"
      "sorted (map (\<lambda>t. ts_key (rekey 2001 t)) tpl)"
    and cols: "ycols \<noteq> []" "list_all (year_column (length tpl)) ycols"
      "map fst ycols = [y0..y0 + int (length ycols) - 1]"
      "y0 + int (length ycols) \<le> 2261"
  shows "group_yearly_df (series_of_years tpl ycols) =
      Inr (yearly_table (map (rekey 2000) tpl) ycols)"
    and "get_data_series (yearly_table (map (rekey 2000) tpl) ycols) =
      Inr (dropna (series_of_years tpl ycols))"
    and "index_len (s_index (series_of_years tpl ycols)) =
      length (s_vals (series_of_years tpl ycols))"
proof -
  define R where "R = map (rekey 2000) tpl"
  define S where "S = series_of_years tpl ycols"
  show "group_yearly_df (series_of_years tpl ycols) =
      Inr (yearly_table (map (rekey 2000) tpl) ycols)"
    by (rule group_yearly_df_whole_years [OF tpl cols])
  have valid: "list_all valid_ts R"
    using tpl(2) valid_common_year(1) by (simp add: R_def list_all_iff)
  have cols': "list_all (year_column (length R)) ycols"
    using cols(2) by (simp add: R_def)
  have "R \<noteq> []"
    using tpl(1) by (simp add: R_def)
  from get_data_series_yearly [OF valid cols' this cols(1)]
  have flat: "get_data_series (yearly_table R ycols) = Inr (series_of_entries (flatten_spec R ycols))" .
  have out: "series_of_entries (flatten_spec R ycols) = dropna S"
    unfolding R_def S_def flatten_spec_common_years [OF tpl(2)]
      series_of_years_cells [OF cols(2)] dropna_entries ..
  from flat out
  show "get_data_series (yearly_table (map (rekey 2000) tpl) ycols) =
      Inr (dropna (series_of_years tpl ycols))"
    by (simp add: R_def S_def)
  show "index_len (s_index (series_of_years tpl ycols)) =
      length (s_vals (series_of_years tpl ycols))"
    unfolding series_of_years_cells [OF cols(2)] by (simp add: index_len_def)
qed

lemma py_str_int_2262: "py_str_int 2262 = ''2262''"
  by code_simp

lemma daily_template_ends:
  "hd daily_template = midnight 1 1" "last daily_template = midnight 12 31"
  by code_simp+

lemma group_yearly_df_year_2261:
  "group_yearly_df (series_of_years daily_template year_2261) =
     Inl (OutOfBoundsDatetime ''Out of bounds nanosecond timestamp: 2262-12-31 00:00:00'')"
proof -
  define vals where "vals = map (\<lambda>k. CInt (int k)) [0..<365]"
  define E where "E = zip (map (rekey 2261) daily_template) vals"
  have len: "length vals = length daily_template"
    by (simp add: vals_def daily_template_length)
  have ne: "daily_template \<noteq> []" "vals \<noteq> []"
    using daily_template_length len by auto
  have S: "series_of_years daily_template year_2261 =
      \<lparr>s_index = DatetimeIndex (map (rekey 2261) daily_template), s_vals = vals\<rparr>"
    by (simp add: series_of_years_def year_2261_def vals_def)
  have stamps: "map fst E = map (rekey 2261) daily_template"
    using len by (simp add: E_def)
  have "map (\<lambda>e. ts_key (fst e)) E = map ts_key (map fst E)"
    by simp
  then have "map (\<lambda>e. ts_key (fst e)) E = map (\<lambda>t. ts_key (rekey 2261 t)) daily_template"
    unfolding stamps by (simp add: comp_def)
  then have "sorted (map (\<lambda>e. ts_key (fst e)) E)"
    using sorted_rekey [OF daily_template_sorted, of 2261] by simp
  then have sorted_id: "sort_key (\<lambda>e. ts_key (fst e)) E = E"
    by (rule sort_key_id_if_sorted)
  have E_ne: "E \<noteq> []"
    using ne by (cases daily_template; cases vals) (simp_all add: E_def)
  have "hd E = (hd (map (rekey 2261) daily_template), hd vals)"
    unfolding E_def using ne by (intro hd_zip) simp_all
  then have earliest: "fst (hd E) = rekey 2261 (midnight 1 1)"
    using ne(1) by (simp add: hd_map daily_template_ends)
  have "last E = (last (map (rekey 2261) daily_template), last vals)"
    unfolding E_def using ne len by (intro last_zip) simp_all
  then have latest: "fst (last E) = rekey 2261 (midnight 12 31)"
    using ne(1) by (simp add: last_map daily_template_ends)
  have bins: "year_bins (rekey 2261 (midnight 1 1)) (rekey 2261 (midnight 12 31)) =
      Inl (OutOfBoundsDatetime ''Out of bounds nanosecond timestamp: 2262-12-31 00:00:00'')"
    by (simp add: year_bins_def Let_def rekey_def midnight_def year_end_def in_bounds_def
        ts_key_def ts_min_def ts_max_def py_str_int_2262)
  have "groupby_year \<lparr>s_index = DatetimeIndex (map (rekey 2261) daily_template), s_vals = vals\<rparr> =
      Inl (OutOfBoundsDatetime ''Out of bounds nanosecond timestamp: 2262-12-31 00:00:00'')"
    unfolding groupby_year_def
    using sorted_id E_ne earliest latest bins
    by (simp add: Let_def E_def [symmetric])
  then show ?thesis
    unfolding S by (simp add: group_yearly_df_def)
qed

text \<open>
  Claim C1 (as amended). For a series that spans whole calendar years from 1678 to 2260
  at a regular cadence without February 29 (the same template of valid times of a common
  year, in order, for each of the consecutive years), \<^verbatim>\<open>get_data_series(group_yearly_df(S))\<close>
  returns the entries of \<open>S\<close> that hold a value, in column-major order of the table (year
  after year, row after row), each exactly once: the multiset of the values is that of
  the values of \<open>S\<close> without the missing ones, it is the multiset of all the values of \<open>S\<close>
  exactly when no entry of \<open>S\<close> is missing, and then the result is \<open>S\<close> itself.
\<close>

theorem yearly_round_trip:
  assumes tpl: "tpl \<noteq> []" "list_all (\<lambda>t. valid_ts (rekey 2001 t)) tpl"
      "sorted (map (\<lambda>t. ts_key (rekey 2001 t)) tpl)"
    and cols: "ycols \<noteq> []" "list_all (year_column (length tpl)) ycols"
      "map fst ycols = [y0..y0 + int (length ycols) - 1]"
      "y0 + int (length ycols) \<le> 2261"
  shows "\<exists>df out.
      group_yearly_df (series_of_years tpl ycols) = Inr df \<and>
      get_data_series df = Inr out \<and>
      out = dropna (series_of_years tpl ycols) \<and>
      concat (map snd (df_columns df)) = s_vals (series_of_years tpl ycols) \<and>
      s_vals out = filter (\<lambda>v. v \<noteq> NaN) (concat (map snd (df_columns df))) \<and>
      mset (s_vals out) = mset (filter (\<lambda>v. v \<noteq> NaN) (s_vals (series_of_years tpl ycols))) \<and>
      (mset (s_vals out) = mset (s_vals (series_of_years tpl ycols))) =
        (NaN \<notin> set (s_vals (series_of_years tpl ycols))) \<and>
      (NaN \<notin> set (s_vals (series_of_years tpl ycols)) \<longrightarrow> out = series_of_years tpl ycols)"
proof -
  define R where "R = map (rekey 2000) tpl"
  define S where "S = series_of_years tpl ycols"
  note rt = round_trip_whole_years [OF tpl cols]
  have grp: "group_yearly_df S = Inr (yearly_table R ycols)"
    unfolding S_def R_def by (rule rt(1))
  have flat: "get_data_series (yearly_table R ycols) = Inr (dropna S)"
    unfolding S_def R_def by (rule rt(2))
  have len: "index_len (s_index S) = length (s_vals S)"
    unfolding S_def by (rule rt(3))
  have major: "concat (map snd (df_columns (yearly_table R ycols))) = s_vals S"
    by (simp add: yearly_table_def S_def series_of_years_def comp_def)
  have same: "(mset (s_vals (dropna S)) = mset (s_vals S)) = (NaN \<notin> set (s_vals S))"
  proof
    assume "mset (s_vals (dropna S)) = mset (s_vals S)"
    then have "set (s_vals (dropna S)) = set (s_vals S)"
      by (rule mset_eq_setD)
    then show "NaN \<notin> set (s_vals S)"
      by (auto simp: s_vals_dropna)
  next
    assume "NaN \<notin> set (s_vals S)"
    then have "dropna S = S"
      using len by (rule dropna_no_missing)
    then show "mset (s_vals (dropna S)) = mset (s_vals S)"
      by simp
  qed
  have "group_yearly_df S = Inr (yearly_table R ycols) \<and>
      get_data_series (yearly_table R ycols) = Inr (dropna S) \<and>
      dropna S = dropna S \<and>
      concat (map snd (df_columns (yearly_table R ycols))) = s_vals S \<and>
      s_vals (dropna S) =
        filter (\<lambda>v. v \<noteq> NaN) (concat (map snd (df_columns (yearly_table R ycols)))) \<and>
      mset (s_vals (dropna S)) = mset (filter (\<lambda>v. v \<noteq> NaN) (s_vals S)) \<and>
      (mset (s_vals (dropna S)) = mset (s_vals S)) = (NaN \<notin> set (s_vals S)) \<and>
      (NaN \<notin> set (s_vals S) \<longrightarrow> dropna S = S)"
    using grp flat major same dropna_no_missing [OF _ len]
    by (simp add: s_vals_dropna)
  then show ?thesis
    unfolding S_def [symmetric] by blast
qed

theorem get_data_series_discards_feb29_witness:
  "list_all valid_ts feb_rows \<and> list_all (year_column (length feb_rows)) feb_cols \<and>
   feb_rows \<noteq> [] \<and> feb_cols \<noteq> [] \<and>
   get_data_series (yearly_table feb_rows feb_cols) =
     Inr \<lparr>s_index = DatetimeIndex
            [\<lparr>year = 2000, month = 2, day = 28, hour = 0, minute = 0, second = 0, nanosecond = 0\<rparr>,
             \<lparr>year = 2000, month = 2, day = 29, hour = 0, minute = 0, second = 0, nanosecond = 0\<rparr>,
             \<lparr>year = 2001, month = 2, day = 28, hour = 0, minute = 0, second = 0, nanosecond = 0\<rparr>],
          s_vals = [CInt 1, CInt 2, CInt 3]\<rparr>"
proof -
  have h1: "list_all valid_ts feb_rows"
    by (simp add: feb_rows_def valid_ts_def days_in_month_def isleap_def)
  have h2: "list_all (year_column (length feb_rows)) feb_cols"
    by (simp add: feb_rows_def feb_cols_def year_column_def)
  have h3: "feb_rows \<noteq> []" and h4: "feb_cols \<noteq> []"
    by (simp_all add: feb_rows_def feb_cols_def)
  have flat: "series_of_entries (flatten_spec feb_rows feb_cols) =
      \<lparr>s_index = DatetimeIndex
         [\<lparr>year = 2000, month = 2, day = 28, hour = 0, minute = 0, second = 0, nanosecond = 0\<rparr>,
          \<lparr>year = 2000, month = 2, day = 29, hour = 0, minute = 0, second = 0, nanosecond = 0\<rparr>,
          \<lparr>year = 2001, month = 2, day = 28, hour = 0, minute = 0, second = 0, nanosecond = 0\<rparr>],
       s_vals = [CInt 1, CInt 2, CInt 3]\<rparr>"
    by (simp add: series_of_entries_def flatten_spec_def cells_of_def discarded_def is_feb29_def
        isleap_def rekey_def feb_rows_def feb_cols_def)
  from get_data_series_discards_feb29 [OF h1 h2 h3 h4] flat h1 h2 h3 h4 show ?thesis
    by auto
qed

theorem yearly_round_trip_witness:
  "daily_template \<noteq> [] \<and> list_all (\<lambda>t. valid_ts (rekey 2001 t)) daily_template \<and>
   sorted (map (\<lambda>t. ts_key (rekey 2001 t)) daily_template) \<and> two_years \<noteq> [] \<and>
   list_all (year_column (length daily_template)) two_years \<and>
   map fst two_years = [2001..2001 + int (length two_years) - 1] \<and>
   2001 + int (length two_years) \<le> 2261 \<and>
   NaN \<notin> set (s_vals (series_of_years daily_template two_years)) \<and>
   (\<exists>df. group_yearly_df (series_of_years daily_template two_years) = Inr df \<and>
      get_data_series df = Inr (series_of_years daily_template two_years))"
proof -
  have h1: "daily_template \<noteq> []"
    using daily_template_length by auto
  have h4: "two_years \<noteq> []"
    by (simp add: two_years_def)
  have h5: "list_all (year_column (length daily_template)) two_years"
    by (simp add: two_years_def year_column_def daily_template_length)
  have h6: "map fst two_years = [2001..2001 + int (length two_years) - 1]"
    by (simp add: two_years_def upto_rec1)
  have h7: "NaN \<notin> set (s_vals (series_of_years daily_template two_years))"
    by (auto simp: series_of_years_def two_years_def)
  have h8: "2001 + int (length two_years) \<le> 2261"
    by (simp add: two_years_def)
  from yearly_round_trip [OF h1 daily_template_valid daily_template_sorted h4 h5 h6 h8] h7
  have "\<exists>df. group_yearly_df (series_of_years daily_template two_years) = Inr df \<and>
      get_data_series df = Inr (series_of_years daily_template two_years)"
    by auto
  with h1 daily_template_valid daily_template_sorted h4 h5 h6 h7 h8 show ?thesis
    by blast
qed

text \<open>
  Claim C1 as stated fails twice. A daily series of the year 2001 whose first entry is
  missing holds 365 values and comes back with 364: the missing entry is dropped. The
  daily series of the year 2261 is not regrouped at all: its latest entry is a December
  31, so the last bin edge is the end of 2262, past the last timestamp.
\<close>

theorem yearly_round_trip_counterexample:
  "group_yearly_df (series_of_years daily_template gap_year) =
     Inr (yearly_table (map (rekey 2000) daily_template) gap_year) \<and>
   get_data_series (yearly_table (map (rekey 2000) daily_template) gap_year) =
     Inr (dropna (series_of_years daily_template gap_year)) \<and>
   length (s_vals (series_of_years daily_template gap_year)) = 365 \<and>
   length (s_vals (dropna (series_of_years daily_template gap_year))) = 364 \<and>
   group_yearly_df (series_of_years daily_template year_2261) =
     Inl (OutOfBoundsDatetime ''Out of bounds nanosecond timestamp: 2262-12-31 00:00:00'')"
proof -
  have h1: "daily_template \<noteq> []"
    using daily_template_length by auto
  have h4: "gap_year \<noteq> []"
    by (simp add: gap_year_def)
  have h5: "list_all (year_column (length daily_template)) gap_year"
    by (simp add: gap_year_def year_column_def daily_template_length)
  have h6: "map fst gap_year = [2001..2001 + int (length gap_year) - 1]"
    by (simp add: gap_year_def)
  have h8: "2001 + int (length gap_year) \<le> 2261"
    by (simp add: gap_year_def)
  note rt = round_trip_whole_years [OF h1 daily_template_valid daily_template_sorted h4 h5 h6 h8]
  have all: "length (s_vals (series_of_years daily_template gap_year)) = 365"
    by (simp add: series_of_years_def gap_year_def)
  have kept: "length (s_vals (dropna (series_of_years daily_template gap_year))) = 364"
    by (simp add: s_vals_dropna series_of_years_def gap_year_def filter_map comp_def)
  from rt(1) rt(2) all kept group_yearly_df_year_2261 show ?thesis
    by (intro conjI)
qed

end
